theory Spec2Isabelle
  imports Complex_Main
begin

section \<open>Embedding of \<open>src/crystal_index/crystal.py\<close>\<close>

text \<open>
  Python's unbounded integers are \<open>int\<close>. The arrays numpy builds from the indices of a plane
  are arrays of 64-bit integers as long as the indices lie in the signed 64-bit range; the
  model is exact on that range (integer products wrap around there) and takes integer
  arithmetic to be exact outside it, where numpy changes to other array types.

  A value of numpy's \<open>float64\<close> is a real number or one of the IEEE special values. The
  results of the floating-point operations are not fixed by the source: they are those of the
  processor and of the numerical libraries. The model takes them as a parameter, a record of
  the operations, and every function that computes on floats receives this record.
\<close>

subsection \<open>Errors, integers of 64 bits and numpy scalars\<close>

datatype error = ZeroDivisionError | ValueError | TypeError

definition int64_range :: "int \<Rightarrow> bool" where
  "int64_range x = (- (2 ^ 63) \<le> x \<and> x < 2 ^ 63)"

definition wrap64 :: "int \<Rightarrow> int" where
  "wrap64 x = (x + 2 ^ 63) mod 2 ^ 64 - 2 ^ 63"

datatype npfloat = Fin real | PInf | NInf | NaN

text \<open>
  The operations whose rounding the source leaves to numpy: \<open>fl_norm\<close> is \<open>linalg.norm\<close> of
  an integer vector, as a function of the sum of the squares of its components (the sum is
  computed exactly in \<open>float64\<close> as long as it stays below \<open>2\<^sup>5\<^sup>3\<close>); \<open>fl_div\<close> and \<open>fl_mul\<close>
  are the division by a non-zero number and the product of finite numbers; \<open>fl_of_int\<close>
  converts an integer; \<open>fl_dot\<close>, \<open>fl_arccos\<close> and \<open>fl_rad2deg\<close> are \<open>dot\<close> on vectors of
  three components, \<open>arccos\<close> and \<open>rad2deg\<close>.
\<close>

record float64_ops =
  fl_norm :: "int \<Rightarrow> real"
  fl_div :: "real \<Rightarrow> real \<Rightarrow> npfloat"
  fl_mul :: "real \<Rightarrow> real \<Rightarrow> npfloat"
  fl_of_int :: "int \<Rightarrow> real"
  fl_dot :: "npfloat \<times> npfloat \<times> npfloat \<Rightarrow> npfloat \<times> npfloat \<times> npfloat \<Rightarrow> npfloat"
  fl_arccos :: "npfloat \<Rightarrow> npfloat"
  fl_rad2deg :: "npfloat \<Rightarrow> npfloat"

text \<open>
  Division of numpy \<open>float64\<close> scalars. Under numpy's default error state a division by zero
  warns and yields an infinity (or nan for \<open>0/0\<close>); it does not raise.
\<close>

fun np_div :: "float64_ops \<Rightarrow> npfloat \<Rightarrow> npfloat \<Rightarrow> npfloat" where
  "np_div F NaN y = NaN"
| "np_div F x NaN = NaN"
| "np_div F (Fin a) (Fin b) =
     (if b \<noteq> 0 then fl_div F a b
      else if 0 < a then PInf else if a < 0 then NInf else NaN)"
| "np_div F (Fin a) PInf = Fin 0"
| "np_div F (Fin a) NInf = Fin 0"
| "np_div F PInf (Fin b) = (if 0 \<le> b then PInf else NInf)"
| "np_div F NInf (Fin b) = (if 0 \<le> b then NInf else PInf)"
| "np_div F PInf PInf = NaN"
| "np_div F PInf NInf = NaN"
| "np_div F NInf PInf = NaN"
| "np_div F NInf NInf = NaN"

text \<open>The comparison \<open>x < y\<close> of floats: false as soon as one side is nan.\<close>

fun np_less :: "npfloat \<Rightarrow> npfloat \<Rightarrow> bool" where
  "np_less (Fin a) (Fin b) = (a < b)"
| "np_less (Fin a) PInf = True"
| "np_less NInf (Fin b) = True"
| "np_less NInf PInf = True"
| "np_less x y = False"

text \<open>\<open>clip(x, lo, hi)\<close> with finite bounds: no rounding, and nan stays nan.\<close>

fun clip :: "npfloat \<Rightarrow> real \<Rightarrow> real \<Rightarrow> npfloat" where
  "clip (Fin x) lo hi = Fin (min (max x lo) hi)"
| "clip PInf lo hi = Fin hi"
| "clip NInf lo hi = Fin lo"
| "clip NaN lo hi = NaN"

text \<open>The literals \<open>0.8\<close> and \<open>1.2\<close>: the \<open>float64\<close> numbers nearest to them.\<close>

definition float_0_8 :: real where
  "float_0_8 = 3602879701896397 / 4503599627370496"

definition float_1_2 :: real where
  "float_1_2 = 5404319552844595 / 4503599627370496"

subsection \<open>The index generator\<close>

type_synonym hkl = "int \<times> int \<times> int"

text \<open>
  \<open>combinations_with_replacement(range(n + 1), 3)\<close>: the triples of non-decreasing elements
  of \<open>0, ..., n\<close>, in lexicographic order.
\<close>

definition combinations_with_replacement3 :: "int \<Rightarrow> hkl list" where
  "combinations_with_replacement3 n =
     concat (map (\<lambda>a. concat (map (\<lambda>b. map (\<lambda>c. (a, b, c)) [b..n]) [a..n])) [0..n])"

text \<open>
  \<open>sum(square(t))\<close>, the sort key. numpy squares and sums 64-bit integers; the sum stays
  below \<open>2\<^sup>6\<^sup>3\<close> for every index up to \<open>10\<^sup>9\<close>, far beyond any list that can be built, so the
  key is taken on unbounded integers.
\<close>

fun sort_by_square_sum :: "hkl \<Rightarrow> int" where
  "sort_by_square_sum (a, b, c) = a * a + b * b + c * c"

text \<open>
  \<open>sorted(..., key=sort_by_square_sum)[1:]\<close>. Python's \<open>sorted\<close> is stable, as is
  \<open>sort_key\<close>; the slice \<open>[1:]\<close> of an empty list is the empty list, as is \<open>tl []\<close>.
\<close>

definition get_possible_index_combinations :: "int \<Rightarrow> hkl list" where
  "get_possible_index_combinations largest_miller_index =
     tl (sort_key sort_by_square_sum (combinations_with_replacement3 largest_miller_index))"

subsection \<open>Crystal planes\<close>

datatype CrystalSystem = FCC | BCC | SC

text \<open>
  The class \<open>CrystalPlane\<close>: the fields \<open>h\<close>, \<open>k\<close>, \<open>l\<close>; the field \<open>planenormal\<close> is the array
  of the three, so it is a function of them.
\<close>

datatype CrystalPlane = CrystalPlane (plane_h: int) (plane_k: int) (plane_l: int)

fun planenormal :: "CrystalPlane \<Rightarrow> hkl" where
  "planenormal (CrystalPlane a b c) = (a, b, c)"

text \<open>The array of the three indices is an array of 64-bit integers.\<close>

fun int64_array :: "hkl \<Rightarrow> bool" where
  "int64_array (a, b, c) = (int64_range a \<and> int64_range b \<and> int64_range c)"

text \<open>\<open>linalg.norm\<close> of an integer vector of three components.\<close>

definition linalg_norm :: "float64_ops \<Rightarrow> hkl \<Rightarrow> real" where
  "linalg_norm F t = fl_norm F (sort_by_square_sum t)"

text \<open>
  \<open>get_d_spacing\<close> is \<open>1 / linalg.norm(self.planenormal)\<close>: a Python integer divided by a
  numpy scalar, hence a numpy division. The method has no \<open>raise\<close> and the division
  does not raise either, so every path returns a value. This is the method on the planes
  whose indices lie in the signed 64-bit range, as those of every plane of a crystal do;
  beyond that range numpy builds arrays of other types, and for an index of 65 bits or more
  an array of Python objects, of which \<open>linalg.norm\<close> raises \<open>TypeError\<close>. The statements on
  the value of \<open>get_d_spacing\<close> are restricted to the signed 64-bit range.
\<close>

definition get_d_spacing :: "float64_ops \<Rightarrow> CrystalPlane \<Rightarrow> error + npfloat" where
  "get_d_spacing F p = Inr (np_div F (Fin 1) (Fin (linalg_norm F (planenormal p))))"

text \<open>
  \<open>permutations([h, k, l])\<close> and \<open>product([1, -1], repeat=3)\<close> of itertools, at the arity the
  source uses them, in the order itertools yields them.
\<close>

definition permutations3 :: "'a \<Rightarrow> 'a \<Rightarrow> 'a \<Rightarrow> ('a \<times> 'a \<times> 'a) list" where
  "permutations3 a b c = [(a, b, c), (a, c, b), (b, a, c), (b, c, a), (c, a, b), (c, b, a)]"

definition product3 :: "'a list \<Rightarrow> ('a \<times> 'a \<times> 'a) list" where
  "product3 xs = concat (map (\<lambda>a. concat (map (\<lambda>b. map (\<lambda>c. (a, b, c)) xs) xs)) xs)"

text \<open>
  \<open>get_equivalent_planes\<close>: the array of permutations, of shape (6, 1, 3) after \<open>newaxis\<close>,
  is multiplied componentwise with the array of signs, of shape (8, 3); broadcasting gives
  shape (6, 8, 3), and \<open>reshape(-1, 3)\<close> lists the rows permutation by permutation, the signs
  varying fastest. The products of 64-bit integers wrap around: a boolean says whether the
  array of permutations is one of 64-bit integers.
\<close>

fun mult3 :: "bool \<Rightarrow> hkl \<Rightarrow> hkl \<Rightarrow> hkl" where
  "mult3 w (a, b, c) (s, t, u) =
     (if w then (wrap64 (a * s), wrap64 (b * t), wrap64 (c * u)) else (a * s, b * t, c * u))"

fun plane_of :: "hkl \<Rightarrow> CrystalPlane" where
  "plane_of (a, b, c) = CrystalPlane a b c"

definition get_equivalent_planes :: "CrystalPlane \<Rightarrow> CrystalPlane list" where
  "get_equivalent_planes p =
     (let possible_miller_indices = permutations3 (plane_h p) (plane_k p) (plane_l p);
          sign_variants = product3 [1, -1];
          possible_planes =
            concat (map (\<lambda>m. map (\<lambda>s. mult3 (int64_array (planenormal p)) m s) sign_variants)
              possible_miller_indices)
      in map plane_of possible_planes)"

subsection \<open>The crystal and its planes\<close>

definition HKL_LIST :: "hkl list" where
  "HKL_LIST = get_possible_index_combinations 5"

definition is_even :: "int \<Rightarrow> bool" where
  "is_even num = (num mod 2 = 0)"

text \<open>
  The loop of the \<open>SC\<close> branch of \<open>get_planes\<close>: the length is tested before the plane is
  appended. When the candidates run out the loop ends, no \<open>return\<close> statement follows the
  \<open>match\<close>, and the method returns Python's \<open>None\<close>.
\<close>

fun sc_loop :: "hkl list \<Rightarrow> int \<Rightarrow> CrystalPlane list \<Rightarrow> CrystalPlane list option" where
  "sc_loop [] order' hkl_list = None"
| "sc_loop ((a, b, c) # rest) order' hkl_list =
     (if int (length hkl_list) = order' then Some hkl_list
      else sc_loop rest order' (hkl_list @ [CrystalPlane a b c]))"

text \<open>The loop of the \<open>BCC\<close> branch: the plane is appended first, the length tested after.\<close>

fun bcc_loop :: "hkl list \<Rightarrow> int \<Rightarrow> CrystalPlane list \<Rightarrow> CrystalPlane list option" where
  "bcc_loop [] order' hkl_list = None"
| "bcc_loop ((a, b, c) # rest) order' hkl_list =
     (let hkl_list' = (if is_even (a + b + c) then hkl_list @ [CrystalPlane a b c] else hkl_list)
      in if int (length hkl_list') = order' then Some hkl_list'
         else bcc_loop rest order' hkl_list')"

text \<open>The loop of the \<open>FCC\<close> branch.\<close>

fun fcc_loop :: "hkl list \<Rightarrow> int \<Rightarrow> CrystalPlane list \<Rightarrow> CrystalPlane list option" where
  "fcc_loop [] order' hkl_list = None"
| "fcc_loop ((a, b, c) # rest) order' hkl_list =
     (let hkl_list' =
            (if (is_even a \<and> is_even b \<and> is_even c) \<or> (\<not> is_even a \<and> \<not> is_even b \<and> \<not> is_even c)
             then hkl_list @ [CrystalPlane a b c] else hkl_list)
      in if int (length hkl_list') = order' then Some hkl_list'
         else fcc_loop rest order' hkl_list')"

text \<open>
  \<open>get_planes\<close> over a candidate list (the class constant \<open>HKL_LIST\<close> in the source);
  \<open>None\<close> is Python's \<open>None\<close>.
\<close>

fun get_planes_from :: "hkl list \<Rightarrow> CrystalSystem \<Rightarrow> int \<Rightarrow> CrystalPlane list option" where
  "get_planes_from cands SC order' = sc_loop cands order' []"
| "get_planes_from cands BCC order' = bcc_loop cands order' []"
| "get_planes_from cands FCC order' = fcc_loop cands order' []"

definition get_planes :: "CrystalSystem \<Rightarrow> int \<Rightarrow> CrystalPlane list option" where
  "get_planes crystal_system order' = get_planes_from HKL_LIST crystal_system order'"

text \<open>
  The class \<open>Crystal\<close>. The field \<open>planes\<close> holds what \<open>get_planes\<close> returned, which may be
  \<open>None\<close>.
\<close>

record Crystal =
  crystal_system :: CrystalSystem
  order :: int
  planes :: "CrystalPlane list option"

text \<open>
  The first argument of the constructor: a member of the enumeration or a string.
  \<open>CrystalSystem(value)\<close> looks the member up by its value (each member's value is its
  name) and raises \<open>ValueError\<close> when no member has that value.
\<close>

datatype selector = Member CrystalSystem | Literal string

definition CrystalSystem_of_value :: "string \<Rightarrow> error + CrystalSystem" where
  "CrystalSystem_of_value s =
     (if s = ''FCC'' then Inr FCC
      else if s = ''BCC'' then Inr BCC
      else if s = ''SC'' then Inr SC
      else Inl ValueError)"

definition Crystal_init :: "selector \<Rightarrow> int \<Rightarrow> error + Crystal" where
  "Crystal_init sel order' =
     (case (case sel of Member cs \<Rightarrow> Inr cs | Literal s \<Rightarrow> CrystalSystem_of_value s) of
        Inl e \<Rightarrow> Inl e
      | Inr cs \<Rightarrow>
          Inr \<lparr>crystal_system = cs, order = order', planes = get_planes cs order'\<rparr>)"

subsection \<open>The pair matcher\<close>

text \<open>\<open>combinations(xs, 2)\<close> of itertools: the pairs of positions \<open>i < j\<close>, in lexicographic order.\<close>

fun combinations2 :: "'a list \<Rightarrow> ('a \<times> 'a) list" where
  "combinations2 [] = []"
| "combinations2 (x # xs) = map (Pair x) xs @ combinations2 xs"

text \<open>A list comprehension whose body may raise: the first error ends it.\<close>

fun collect :: "('a \<Rightarrow> error + 'b) \<Rightarrow> 'a list \<Rightarrow> error + 'b list" where
  "collect f [] = Inr []"
| "collect f (x # xs) =
     (case f x of
        Inl e \<Rightarrow> Inl e
      | Inr y \<Rightarrow> (case collect f xs of Inl e \<Rightarrow> Inl e | Inr ys \<Rightarrow> Inr (y # ys)))"

definition d_ratio_entry ::
    "float64_ops \<Rightarrow> CrystalPlane \<times> CrystalPlane \<Rightarrow>
       error + (npfloat \<times> (CrystalPlane \<times> CrystalPlane))" where
  "d_ratio_entry F pair =
     (case get_d_spacing F (fst pair) of
        Inl e \<Rightarrow> Inl e
      | Inr d0 \<Rightarrow>
          (case get_d_spacing F (snd pair) of
             Inl e \<Rightarrow> Inl e
           | Inr d1 \<Rightarrow> Inr (np_div F d0 d1, pair)))"

text \<open>\<open>get_d_ratio\<close>; \<open>combinations(None, 2)\<close> raises \<open>TypeError\<close>.\<close>

definition get_d_ratio ::
    "float64_ops \<Rightarrow> Crystal \<Rightarrow> error + (npfloat \<times> (CrystalPlane \<times> CrystalPlane)) list" where
  "get_d_ratio F c =
     (case planes c of
        None \<Rightarrow> Inl TypeError
      | Some ps \<Rightarrow> collect (d_ratio_entry F) (combinations2 ps))"

text \<open>
  \<open>angle_between\<close>. \<open>unit_vector\<close> divides the integer vector, converted to \<open>float64\<close>, by
  its norm; a zero normal has norm 0, and the division of 0 by 0 is nan in every component.
\<close>

fun unit_vector :: "float64_ops \<Rightarrow> hkl \<Rightarrow> npfloat \<times> npfloat \<times> npfloat" where
  "unit_vector F (a, b, c) =
     (np_div F (Fin (fl_of_int F a)) (Fin (linalg_norm F (a, b, c))),
      np_div F (Fin (fl_of_int F b)) (Fin (linalg_norm F (a, b, c))),
      np_div F (Fin (fl_of_int F c)) (Fin (linalg_norm F (a, b, c))))"

definition angle_between :: "float64_ops \<Rightarrow> CrystalPlane \<Rightarrow> CrystalPlane \<Rightarrow> npfloat" where
  "angle_between F p1 p2 =
     (let p1_u = unit_vector F (planenormal p1);
          p2_u = unit_vector F (planenormal p2)
      in fl_rad2deg F (fl_arccos F (clip (fl_dot F p1_u p2_u) (- 1) 1)))"

text \<open>\<open>cross\<close> of two integer vectors; on arrays of 64-bit integers the result wraps around.\<close>

fun cross :: "hkl \<Rightarrow> hkl \<Rightarrow> hkl" where
  "cross (a1, a2, a3) (b1, b2, b3) =
     (if int64_array (a1, a2, a3) \<and> int64_array (b1, b2, b3)
      then (wrap64 (a2 * b3 - a3 * b2), wrap64 (a3 * b1 - a1 * b3), wrap64 (a1 * b2 - a2 * b1))
      else (a2 * b3 - a3 * b2, a3 * b1 - a1 * b3, a1 * b2 - a2 * b1))"

definition get_zone_axis :: "CrystalPlane \<Rightarrow> CrystalPlane \<Rightarrow> hkl" where
  "get_zone_axis p1 p2 = cross (planenormal p1) (planenormal p2)"

text \<open>
  \<open>find_pairs\<close> returns nothing and reports each match by three \<open>print\<close> calls: the two
  planes, their zone axis and a separator. The model returns the sequence of reported
  matches: one record for each block printed, in the order printed.
\<close>

record MatchResult =
  vector_1 :: CrystalPlane
  vector_2 :: CrystalPlane
  zone_axis :: hkl

text \<open>The inner loop, over the equivalent planes, left by \<open>break\<close> at the first match.\<close>

fun equivalents_loop ::
    "float64_ops \<Rightarrow> CrystalPlane \<Rightarrow> CrystalPlane list \<Rightarrow> real \<Rightarrow> MatchResult list" where
  "equivalents_loop F v1 [] angle = []"
| "equivalents_loop F v1 (v2 # vector_2_lst) angle =
     (if np_less (angle_between F v1 v2) (Fin angle)
      then [\<lparr>vector_1 = v1, vector_2 = v2, zone_axis = get_zone_axis v1 v2\<rparr>]
      else equivalents_loop F v1 vector_2_lst angle)"

text \<open>The outer loop, over the retained pairs.\<close>

fun pairs_loop ::
    "float64_ops \<Rightarrow> (CrystalPlane \<times> CrystalPlane) list \<Rightarrow> real \<Rightarrow> MatchResult list" where
  "pairs_loop F [] angle = []"
| "pairs_loop F (pair # possible_pairs) angle =
     equivalents_loop F (fst pair) (get_equivalent_planes (snd pair)) angle
       @ pairs_loop F possible_pairs angle"

text \<open>
  The pairs \<open>find_pairs\<close> retains: \<open>[i[1] for i in self.get_d_ratio() if lower_limit < i[0] <
  higher_limit]\<close>. The arguments \<open>space_ratio\<close> and \<open>angle\<close> are finite floats.
\<close>

definition possible_pairs ::
    "float64_ops \<Rightarrow> Crystal \<Rightarrow> real \<Rightarrow> error + (CrystalPlane \<times> CrystalPlane) list" where
  "possible_pairs F c space_ratio =
     (let lower_limit = fl_mul F space_ratio float_0_8;
          higher_limit = fl_mul F space_ratio float_1_2
      in case get_d_ratio F c of
           Inl e \<Rightarrow> Inl e
         | Inr rs \<Rightarrow>
             Inr (map snd
               (filter (\<lambda>i. np_less lower_limit (fst i) \<and> np_less (fst i) higher_limit) rs)))"

definition find_pairs ::
    "float64_ops \<Rightarrow> Crystal \<Rightarrow> real \<Rightarrow> real \<Rightarrow> error + MatchResult list" where
  "find_pairs F c space_ratio angle =
     (case possible_pairs F c space_ratio of
        Inl e \<Rightarrow> Inl e
      | Inr pairs \<Rightarrow> Inr (pairs_loop F pairs angle))"

subsection \<open>Orders used in the statements\<close>

text \<open>
  The lexicographic order on triples, and the order of the generated index list: ascending
  by the sum of squares, ties in lexicographic order.
\<close>

fun lex_less :: "hkl \<Rightarrow> hkl \<Rightarrow> bool" where
  "lex_less (a, b, c) (a', b', c') = (a < a' \<or> (a = a' \<and> (b < b' \<or> (b = b' \<and> c < c'))))"

definition index_order :: "hkl \<Rightarrow> hkl \<Rightarrow> bool" where
  "index_order s t =
     (sort_by_square_sum s < sort_by_square_sum t \<or>
      (sort_by_square_sum s = sort_by_square_sum t \<and> lex_less s t))"

subsection \<open>The acceptance rules of the specification\<close>



subsection \<open>The pair matcher in the words of the specification\<close>

text \<open>
  The tolerance band of a target ratio on the ratio of the computed d-spacings, the angle
  test of a candidate, and the match a pair yields: the first equivalent of the second plane,
  in the order of enumeration, whose angle to the first plane is below the threshold.
\<close>

definition d_ratio :: "float64_ops \<Rightarrow> CrystalPlane \<times> CrystalPlane \<Rightarrow> npfloat" where
  "d_ratio F pair =
     (case (get_d_spacing F (fst pair), get_d_spacing F (snd pair)) of
        (Inr d0, Inr d1) \<Rightarrow> np_div F d0 d1
      | _ \<Rightarrow> NaN)"

definition in_band :: "float64_ops \<Rightarrow> real \<Rightarrow> CrystalPlane \<times> CrystalPlane \<Rightarrow> bool" where
  "in_band F target_ratio pair =
     (np_less (fl_mul F target_ratio float_0_8) (d_ratio F pair) \<and>
      np_less (d_ratio F pair) (fl_mul F target_ratio float_1_2))"

definition qualifies :: "float64_ops \<Rightarrow> real \<Rightarrow> CrystalPlane \<Rightarrow> CrystalPlane \<Rightarrow> bool" where
  "qualifies F angle_threshold p e = np_less (angle_between F p e) (Fin angle_threshold)"

definition match_of ::
    "float64_ops \<Rightarrow> real \<Rightarrow> real \<Rightarrow> CrystalPlane \<times> CrystalPlane \<Rightarrow> MatchResult option" where
  "match_of F target_ratio angle_threshold pair =
     (if in_band F target_ratio pair
      then map_option
        (\<lambda>e. \<lparr>vector_1 = fst pair, vector_2 = e, zone_axis = get_zone_axis (fst pair) e\<rparr>)
        (find (qualifies F angle_threshold (fst pair)) (get_equivalent_planes (snd pair)))
      else None)"

subsection \<open>Exact and accurate floating-point operations\<close>

text \<open>
  The operations without rounding, on the real numbers; nan in, nan out.
\<close>

fun exact_dot :: "npfloat \<times> npfloat \<times> npfloat \<Rightarrow> npfloat \<times> npfloat \<times> npfloat \<Rightarrow> npfloat" where
  "exact_dot (Fin a1, Fin a2, Fin a3) (Fin b1, Fin b2, Fin b3) = Fin (a1 * b1 + a2 * b2 + a3 * b3)"
| "exact_dot x y = NaN"

fun exact_arccos :: "npfloat \<Rightarrow> npfloat" where
  "exact_arccos (Fin x) = Fin (arccos x)"
| "exact_arccos x = NaN"

fun exact_rad2deg :: "npfloat \<Rightarrow> npfloat" where
  "exact_rad2deg (Fin x) = Fin (x * (180 / pi))"
| "exact_rad2deg x = x"

definition exact_ops :: float64_ops where
  "exact_ops =
     \<lparr>fl_norm = (\<lambda>s. sqrt (real_of_int s)),
      fl_div = (\<lambda>a b. Fin (a / b)),
      fl_mul = (\<lambda>a b. Fin (a * b)),
      fl_of_int = real_of_int,
      fl_dot = exact_dot,
      fl_arccos = exact_arccos,
      fl_rad2deg = exact_rad2deg\<rparr>"

text \<open>
  What the statements on computed values assume of the operations: each result is the exact
  one up to a relative error of \<open>10\<^sup>-\<^sup>9\<close> (an absolute one for the dot product of vectors of
  components of magnitude at most 2, for \<open>arccos\<close> and for \<open>rad2deg\<close>), far from overflow and
  underflow; this holds of \<open>float64\<close>, whose operations are accurate to about \<open>10\<^sup>-\<^sup>1\<^sup>6\<close>.
\<close>

definition tolerance :: real where
  "tolerance = 1 / 10 ^ 9"

definition accurate :: "float64_ops \<Rightarrow> bool" where
  "accurate F =
     ((\<forall>s. 0 \<le> s \<and> s \<le> 2 ^ 128 \<longrightarrow>
         \<bar>fl_norm F s - sqrt (real_of_int s)\<bar> \<le> tolerance * sqrt (real_of_int s)) \<and>
      (\<forall>a b. b \<noteq> 0 \<and> 1 / 10 ^ 100 \<le> \<bar>a / b\<bar> \<and> \<bar>a / b\<bar> \<le> 10 ^ 100 \<longrightarrow>
         (\<exists>x. fl_div F a b = Fin x \<and> \<bar>x - a / b\<bar> \<le> tolerance * \<bar>a / b\<bar>)) \<and>
      (\<forall>b. b \<noteq> 0 \<longrightarrow> fl_div F 0 b = Fin 0) \<and>
      (\<forall>a b. 1 / 10 ^ 100 \<le> \<bar>a * b\<bar> \<and> \<bar>a * b\<bar> \<le> 10 ^ 100 \<longrightarrow>
         (\<exists>x. fl_mul F a b = Fin x \<and> \<bar>x - a * b\<bar> \<le> tolerance * \<bar>a * b\<bar>)) \<and>
      (\<forall>i. \<bar>i\<bar> \<le> 2 ^ 53 \<longrightarrow> fl_of_int F i = real_of_int i) \<and>
      (\<forall>a1 a2 a3 b1 b2 b3.
         \<bar>a1\<bar> \<le> 2 \<and> \<bar>a2\<bar> \<le> 2 \<and> \<bar>a3\<bar> \<le> 2 \<and> \<bar>b1\<bar> \<le> 2 \<and> \<bar>b2\<bar> \<le> 2 \<and> \<bar>b3\<bar> \<le> 2 \<longrightarrow>
         (\<exists>x. fl_dot F (Fin a1, Fin a2, Fin a3) (Fin b1, Fin b2, Fin b3) = Fin x \<and>
            \<bar>x - (a1 * b1 + a2 * b2 + a3 * b3)\<bar> \<le> tolerance)) \<and>
      (\<forall>x. \<bar>x\<bar> \<le> 1 \<longrightarrow>
         (\<exists>y. fl_arccos F (Fin x) = Fin y \<and> \<bar>y - arccos x\<bar> \<le> tolerance)) \<and>
      (\<forall>y. \<bar>y\<bar> \<le> 4 \<longrightarrow>
         (\<exists>z. fl_rad2deg F (Fin y) = Fin z \<and> \<bar>z - y * (180 / pi)\<bar> \<le> tolerance)))"

section \<open>Properties\<close>

subsection \<open>Helper facts on sums of squares\<close>

lemma sum3_squares_eq_zero_iff:
  fixes x y z :: "'a::linordered_idom"
  shows "x * x + y * y + z * z = 0 \<longleftrightarrow> x = 0 \<and> y = 0 \<and> z = 0"
proof -
  have "0 \<le> x * x + y * y" and "0 \<le> z * z" by simp_all
  then have "x * x + y * y + z * z = 0 \<longleftrightarrow> x * x + y * y = 0 \<and> z * z = 0"
    by (rule add_nonneg_eq_0_iff)
  then show ?thesis by (simp add: sum_squares_eq_zero_iff)
qed

subsection \<open>Construction with an unknown selector\<close>

text \<open>
  C9. Constructing a crystal from a string that is none of "FCC", "BCC", "SC" fails: the
  enumeration lookup raises \<open>ValueError\<close> (the configuration error of the specification), and
  no crystal is produced.
\<close>

theorem unknown_selector_fails:
  "s \<noteq> ''FCC'' \<Longrightarrow> s \<noteq> ''BCC'' \<Longrightarrow> s \<noteq> ''SC'' \<Longrightarrow> Crystal_init (Literal s) n = Inl ValueError"
  by (simp add: Crystal_init_def CrystalSystem_of_value_def)

theorem unknown_selector_fails_witness:
  "Crystal_init (Literal ''fcc'') 8 = Inl ValueError"
  using unknown_selector_fails [of "''fcc''" 8] by simp

subsection \<open>The index generator\<close>

lemma sorted_wrt_concat_map:
  assumes "sorted_wrt L xs"
    and "\<And>x. x \<in> set xs \<Longrightarrow> sorted_wrt R (f x)"
    and "\<And>x y u v. L x y \<Longrightarrow> u \<in> set (f x) \<Longrightarrow> v \<in> set (f y) \<Longrightarrow> R u v"
  shows "sorted_wrt R (concat (map f xs))"
  using assms
proof (induction xs)
  case Nil
  then show ?case by simp
next
  case (Cons x xs)
  have "sorted_wrt R (concat (map f xs))"
    using Cons by simp
  moreover have "sorted_wrt R (f x)" using Cons.prems(2) by simp
  moreover have "R u v" if "u \<in> set (f x)" "v \<in> set (concat (map f xs))" for u v
  proof -
    from that(2) obtain y where y: "y \<in> set xs" "v \<in> set (f y)" by auto
    with Cons.prems(1) have "L x y" by simp
    then show ?thesis using Cons.prems(3) that(1) y(2) by blast
  qed
  ultimately show ?case by (simp add: sorted_wrt_append)
qed

lemma mem_concat_map: "x \<in> set (concat (map f xs)) \<longleftrightarrow> (\<exists>y \<in> set xs. x \<in> set (f y))"
  by auto

lemma mem_combinations_with_replacement3:
  "(a, b, c) \<in> set (combinations_with_replacement3 n)
      \<longleftrightarrow> 0 \<le> a \<and> a \<le> b \<and> b \<le> c \<and> c \<le> n"
proof -
  have "(a, b, c) \<in> set (combinations_with_replacement3 n)
      \<longleftrightarrow> (\<exists>a' \<in> {0..n}. \<exists>b' \<in> {a'..n}. \<exists>c' \<in> {b'..n}. (a, b, c) = (a', b', c'))"
    unfolding combinations_with_replacement3_def mem_concat_map
    by (simp only: set_upto set_map image_iff)
  also have "\<dots> \<longleftrightarrow> 0 \<le> a \<and> a \<le> b \<and> b \<le> c \<and> c \<le> n"
    by (auto simp: Bex_def)
  finally show ?thesis .
qed

lemma set_combinations_with_replacement3:
  "set (combinations_with_replacement3 n) = {(a, b, c). 0 \<le> a \<and> a \<le> b \<and> b \<le> c \<and> c \<le> n}"
  using mem_combinations_with_replacement3 by auto

lemma lex_sorted_combinations_with_replacement3:
  "sorted_wrt lex_less (combinations_with_replacement3 n)"
  unfolding combinations_with_replacement3_def
proof (rule sorted_wrt_concat_map [where L = "(<)"])
  show "sorted_wrt (<) [0..n]" by simp
next
  fix a assume "a \<in> set [0..n]"
  show "sorted_wrt lex_less (concat (map (\<lambda>b. map (\<lambda>c. (a, b, c)) [b..n]) [a..n]))"
  proof (rule sorted_wrt_concat_map [where L = "(<)"])
    show "sorted_wrt (<) [a..n]" by simp
  next
    fix b assume "b \<in> set [a..n]"
    have "sorted_wrt (\<lambda>c c'. lex_less (a, b, c) (a, b, c')) [b..n]"
      by (rule sorted_wrt_mono_rel [where P = "(<)"]) simp_all
    then show "sorted_wrt lex_less (map (\<lambda>c. (a, b, c)) [b..n])"
      by (simp add: sorted_wrt_map)
  next
    fix b b' :: int and u v
    assume "b < b'" "u \<in> set (map (\<lambda>c. (a, b, c)) [b..n])" "v \<in> set (map (\<lambda>c. (a, b', c)) [b'..n])"
    then show "lex_less u v" by auto
  qed
next
  fix a a' :: int and u v
  assume "a < a'"
    "u \<in> set (concat (map (\<lambda>b. map (\<lambda>c. (a, b, c)) [b..n]) [a..n]))"
    "v \<in> set (concat (map (\<lambda>b. map (\<lambda>c. (a', b, c)) [b..n]) [a'..n]))"
  then show "lex_less u v" by auto
qed

lemma sorted_wrt_insort_key_ties:
  assumes "sorted_wrt (\<lambda>s t. f s < f t \<or> (f s = f t \<and> L s t)) ys"
    and "\<And>y. y \<in> set ys \<Longrightarrow> L x y"
  shows "sorted_wrt (\<lambda>s t. f s < f t \<or> (f s = f t \<and> L s t)) (insort_key f x ys)"
  using assms
proof (induction ys)
  case Nil
  then show ?case by simp
next
  case (Cons y ys)
  show ?case
  proof (cases "f x \<le> f y")
    case True
    have "f x < f z \<or> (f x = f z \<and> L x z)" if "z \<in> set (y # ys)" for z
    proof -
      have "f y \<le> f z" using Cons.prems(1) that by auto
      with True have "f x \<le> f z" by simp
      moreover have "L x z" using Cons.prems(2) that by blast
      ultimately show ?thesis by auto
    qed
    with True Cons.prems(1) show ?thesis by simp
  next
    case False
    have "sorted_wrt (\<lambda>s t. f s < f t \<or> (f s = f t \<and> L s t)) (insort_key f x ys)"
      using Cons by simp
    with False Cons.prems(1) show ?thesis by (auto simp: set_insort_key)
  qed
qed

lemma sorted_wrt_sort_key_ties:
  assumes "sorted_wrt L xs"
  shows "sorted_wrt (\<lambda>s t. f s < f t \<or> (f s = f t \<and> L s t)) (sort_key f xs)"
  using assms
proof (induction xs)
  case Nil
  then show ?case by simp
next
  case (Cons x xs)
  have "sorted_wrt (\<lambda>s t. f s < f t \<or> (f s = f t \<and> L s t)) (sort_key f xs)"
    using Cons by simp
  moreover have "L x y" if "y \<in> set (sort_key f xs)" for y
    using Cons.prems that by simp
  ultimately have "sorted_wrt (\<lambda>s t. f s < f t \<or> (f s = f t \<and> L s t))
      (insort_key f x (sort_key f xs))"
    by (rule sorted_wrt_insort_key_ties)
  then show ?case by simp
qed

lemma index_order_sorted:
  "sorted_wrt index_order (sort_key sort_by_square_sum (combinations_with_replacement3 n))"
proof -
  have "index_order = (\<lambda>s t. sort_by_square_sum s < sort_by_square_sum t \<or>
      (sort_by_square_sum s = sort_by_square_sum t \<and> lex_less s t))"
    by (simp add: index_order_def fun_eq_iff)
  then show ?thesis
    using sorted_wrt_sort_key_ties [OF lex_sorted_combinations_with_replacement3,
        of sort_by_square_sum n] by simp
qed

lemma sort_by_square_sum_nonneg: "0 \<le> sort_by_square_sum t"
  by (cases t) simp

lemma sort_by_square_sum_eq_0_iff: "sort_by_square_sum t = 0 \<longleftrightarrow> t = (0, 0, 0)"
  by (cases t) (simp add: sum3_squares_eq_zero_iff)

lemma index_order_zero_least: "\<not> index_order t (0, 0, 0)"
proof
  assume "index_order t (0, 0, 0)"
  then have "sort_by_square_sum t < 0 \<or> (sort_by_square_sum t = 0 \<and> lex_less t (0, 0, 0))"
    unfolding index_order_def by simp
  with sort_by_square_sum_nonneg [of t]
  have "sort_by_square_sum t = 0" and "lex_less t (0, 0, 0)" by linarith+
  then have "lex_less (0, 0, 0) (0, 0, 0)"
    by (simp add: sort_by_square_sum_eq_0_iff)
  then show False by simp
qed

lemma sorted_combinations_head:
  assumes "0 \<le> n"
  shows "sort_key sort_by_square_sum (combinations_with_replacement3 n)
     = (0, 0, 0) # get_possible_index_combinations n"
proof -
  let ?S = "sort_key sort_by_square_sum (combinations_with_replacement3 n)"
  have mem: "(0, 0, 0) \<in> set ?S"
    using assms by (simp add: set_combinations_with_replacement3)
  then obtain x xs where S: "?S = x # xs" by (cases ?S) auto
  have "x = (0, 0, 0)"
  proof (rule ccontr)
    assume "x \<noteq> (0, 0, 0)"
    with mem S have "(0, 0, 0) \<in> set xs" by auto
    moreover have "sorted_wrt index_order (x # xs)" using index_order_sorted [of n] S by simp
    ultimately have "index_order x (0, 0, 0)" by simp
    then show False using index_order_zero_least by blast
  qed
  with S show ?thesis by (simp add: get_possible_index_combinations_def)
qed

lemma index_order_irrefl: "\<not> index_order t t"
  by (cases t) (simp add: index_order_def)

text \<open>
  C7. \<open>get_possible_index_combinations n\<close> lists exactly the triples \<open>0 \<le> h \<le> k \<le> l \<le> n\<close>
  other than (0, 0, 0); the list ascends by \<open>h\<^sup>2 + k\<^sup>2 + l\<^sup>2\<close>, and triples of equal sum stand
  in the lexicographic order in which they were generated (so no triple occurs twice). For
  \<open>n = 2\<close> it is the list of 9 triples of the specification, and for \<open>n = 5\<close> it has 55 triples.
\<close>

theorem generate_indices_sorted_complete:
  "set (get_possible_index_combinations n) =
     {(a, b, c). 0 \<le> a \<and> a \<le> b \<and> b \<le> c \<and> c \<le> n \<and> (a, b, c) \<noteq> (0, 0, 0)} \<and>
   sorted_wrt index_order (get_possible_index_combinations n) \<and>
   get_possible_index_combinations 2 =
     [(0,0,1), (0,1,1), (1,1,1), (0,0,2), (0,1,2), (1,1,2), (0,2,2), (1,2,2), (2,2,2)] \<and>
   length (get_possible_index_combinations 5) = 55"
proof (intro conjI)
  let ?S = "sort_key sort_by_square_sum (combinations_with_replacement3 n)"
  let ?G = "get_possible_index_combinations n"
  show sorted: "sorted_wrt index_order ?G"
    using index_order_sorted [of n]
    by (cases ?S) (simp_all add: get_possible_index_combinations_def)
  show "set ?G = {(a, b, c). 0 \<le> a \<and> a \<le> b \<and> b \<le> c \<and> c \<le> n \<and> (a, b, c) \<noteq> (0, 0, 0)}"
  proof (cases "0 \<le> n")
    case True
    have S: "?S = (0, 0, 0) # ?G" using True by (rule sorted_combinations_head)
    have "sorted_wrt index_order ((0, 0, 0) # ?G)" using index_order_sorted [of n] S by simp
    then have "(0, 0, 0) \<notin> set ?G" using index_order_irrefl by auto
    moreover have "set ?S = insert (0, 0, 0) (set ?G)" using S by simp
    ultimately have "set ?G = set ?S - {(0, 0, 0)}" by auto
    then show ?thesis by (auto simp: set_combinations_with_replacement3)
  next
    case False
    then have "combinations_with_replacement3 n = []"
      by (simp add: combinations_with_replacement3_def)
    with False show ?thesis by (auto simp: get_possible_index_combinations_def)
  qed
  show "get_possible_index_combinations 2 =
     [(0,0,1), (0,1,1), (1,1,1), (0,0,2), (0,1,2), (1,1,2), (0,2,2), (1,2,2), (2,2,2)]"
    by code_simp
  show "length (get_possible_index_combinations 5) = 55"
    by code_simp
qed

subsection \<open>The crystal structure selector\<close>










subsection \<open>Integers of 64 bits\<close>

lemma wrap64_id: "int64_range x \<Longrightarrow> wrap64 x = x"
  by (simp add: int64_range_def wrap64_def)

lemma wrap64_neg: "- (2 ^ 63) < x \<Longrightarrow> x < 2 ^ 63 \<Longrightarrow> wrap64 (- x) = - x"
  by (rule wrap64_id) (simp add: int64_range_def)










lemma get_equivalent_planes_explicit:
  assumes "- (2 ^ 63) < a" "a < 2 ^ 63" "- (2 ^ 63) < b" "b < 2 ^ 63" "- (2 ^ 63) < c" "c < 2 ^ 63"
  shows "get_equivalent_planes (CrystalPlane a b c) =
     concat (map (\<lambda>(x, y, z).
         [CrystalPlane x y z, CrystalPlane x y (- z), CrystalPlane x (- y) z,
          CrystalPlane x (- y) (- z), CrystalPlane (- x) y z, CrystalPlane (- x) y (- z),
          CrystalPlane (- x) (- y) z, CrystalPlane (- x) (- y) (- z)])
       [(a, b, c), (a, c, b), (b, a, c), (b, c, a), (c, a, b), (c, b, a)])"
proof -
  have r: "int64_range a" "int64_range b" "int64_range c"
    using assms by (simp_all add: int64_range_def)
  have n: "wrap64 (- a) = - a" "wrap64 (- b) = - b" "wrap64 (- c) = - c"
    using assms by (simp_all add: wrap64_neg)
  show ?thesis
    using r by (simp add: get_equivalent_planes_def permutations3_def product3_def wrap64_id n)
qed

lemma length_get_equivalent_planes: "length (get_equivalent_planes p) = 48"
  by (simp add: get_equivalent_planes_def permutations3_def product3_def)

subsection \<open>Equivalent planes\<close>

text \<open>
  C8. For every plane, \<open>get_equivalent_planes\<close> yields exactly 48 entries, with no
  deduplication: the plane (1, 1, 1) is itself listed 6 times, and the zero plane 48 times.
  For indices whose negation is a 64-bit integer, the entries are the 6 permutations of the
  indices, in the order of \<open>permutations\<close>, each under the 8 sign patterns, in the order of
  \<open>product\<close>.
\<close>

theorem equivalent_planes_48:
  "length (get_equivalent_planes p) = 48 \<and>
   (- (2 ^ 63) < a \<and> a < 2 ^ 63 \<and> - (2 ^ 63) < b \<and> b < 2 ^ 63 \<and> - (2 ^ 63) < c \<and> c < 2 ^ 63 \<longrightarrow>
    get_equivalent_planes (CrystalPlane a b c) =
      concat (map (\<lambda>(x, y, z).
          [CrystalPlane x y z, CrystalPlane x y (- z), CrystalPlane x (- y) z,
           CrystalPlane x (- y) (- z), CrystalPlane (- x) y z, CrystalPlane (- x) y (- z),
           CrystalPlane (- x) (- y) z, CrystalPlane (- x) (- y) (- z)])
        [(a, b, c), (a, c, b), (b, a, c), (b, c, a), (c, a, b), (c, b, a)])) \<and>
   count_list (get_equivalent_planes (CrystalPlane 1 1 1)) (CrystalPlane 1 1 1) = 6 \<and>
   get_equivalent_planes (CrystalPlane 0 0 0) = replicate 48 (CrystalPlane 0 0 0)"
proof (intro conjI impI)
  show "length (get_equivalent_planes p) = 48" by (rule length_get_equivalent_planes)
next
  assume "- (2 ^ 63) < a \<and> a < 2 ^ 63 \<and> - (2 ^ 63) < b \<and> b < 2 ^ 63 \<and> - (2 ^ 63) < c \<and> c < 2 ^ 63"
  then show "get_equivalent_planes (CrystalPlane a b c) =
      concat (map (\<lambda>(x, y, z).
          [CrystalPlane x y z, CrystalPlane x y (- z), CrystalPlane x (- y) z,
           CrystalPlane x (- y) (- z), CrystalPlane (- x) y z, CrystalPlane (- x) y (- z),
           CrystalPlane (- x) (- y) z, CrystalPlane (- x) (- y) (- z)])
        [(a, b, c), (a, c, b), (b, a, c), (b, c, a), (c, a, b), (c, b, a)])"
    by (intro get_equivalent_planes_explicit) simp_all
next
  show "count_list (get_equivalent_planes (CrystalPlane 1 1 1)) (CrystalPlane 1 1 1) = 6"
    by (simp add: get_equivalent_planes_explicit)
next
  show "get_equivalent_planes (CrystalPlane 0 0 0) = replicate 48 (CrystalPlane 0 0 0)"
    by (simp add: get_equivalent_planes_explicit numeral_eq_Suc)
qed

theorem equivalent_planes_48_witness:
  "take 10 (get_equivalent_planes (CrystalPlane 1 2 3)) =
     [CrystalPlane 1 2 3, CrystalPlane 1 2 (- 3), CrystalPlane 1 (- 2) 3, CrystalPlane 1 (- 2) (- 3),
      CrystalPlane (- 1) 2 3, CrystalPlane (- 1) 2 (- 3), CrystalPlane (- 1) (- 2) 3,
      CrystalPlane (- 1) (- 2) (- 3), CrystalPlane 1 3 2, CrystalPlane 1 3 (- 2)] \<and>
   get_equivalent_planes (CrystalPlane 1 2 3) ! 47 = CrystalPlane (- 3) (- 2) (- 1)"
proof -
  have "- (2 ^ 63) < (1::int) \<and> (1::int) < 2 ^ 63 \<and> - (2 ^ 63) < (2::int) \<and> (2::int) < 2 ^ 63 \<and>
      - (2 ^ 63) < (3::int) \<and> (3::int) < 2 ^ 63"
    by simp
  then have "get_equivalent_planes (CrystalPlane 1 2 3) =
      concat (map (\<lambda>(x, y, z).
          [CrystalPlane x y z, CrystalPlane x y (- z), CrystalPlane x (- y) z,
           CrystalPlane x (- y) (- z), CrystalPlane (- x) y z, CrystalPlane (- x) y (- z),
           CrystalPlane (- x) (- y) z, CrystalPlane (- x) (- y) (- z)])
        [(1, 2, 3), (1, 3, 2), (2, 1, 3), (2, 3, 1), (3, 1, 2), (3, 2, 1)])"
    by (rule equivalent_planes_48 [THEN conjunct2, THEN conjunct1, THEN mp])
  then show ?thesis by simp
qed

subsection \<open>The orbit of equivalent planes and the d-spacing\<close>



subsection \<open>Lattice construction when the candidates run out\<close>

text \<open>
  C1. The claim: when fewer than \<open>order\<close> candidates are accepted before the candidate list is
  exhausted, \<open>get_planes\<close> returns the planes collected so far, never an absent result.
  The code does otherwise: \<open>HKL_LIST\<close> has 55 triples, and \<open>Crystal("SC", 56)\<close> is built with
  \<open>planes\<close> equal to \<open>None\<close>, since the loop ends without reaching a \<open>return\<close>; so is
  \<open>Crystal("SC", 55)\<close>, although all 55 planes were collected; and \<open>find_pairs\<close> on such a
  crystal raises \<open>TypeError\<close>.
\<close>

theorem get_planes_exhausted_is_None:
  "Crystal_init (Literal ''SC'') 56 = Inr \<lparr>crystal_system = SC, order = 56, planes = None\<rparr> \<and>
   length HKL_LIST = 55 \<and>
   get_planes SC 55 = None \<and>
   find_pairs F \<lparr>crystal_system = SC, order = 56, planes = None\<rparr> (3 / 2) 66 = Inl TypeError"
proof (intro conjI)
  show "Crystal_init (Literal ''SC'') 56 = Inr \<lparr>crystal_system = SC, order = 56, planes = None\<rparr>"
    by code_simp
  show "length HKL_LIST = 55" by code_simp
  show "get_planes SC 55 = None" by code_simp
  show "find_pairs F \<lparr>crystal_system = SC, order = 56, planes = None\<rparr> (3 / 2) 66 = Inl TypeError"
    by (simp add: find_pairs_def possible_pairs_def get_d_ratio_def)
qed

subsection \<open>The pair matcher\<close>

lemma collect_total: "(\<And>x. f x = Inr (g x)) \<Longrightarrow> collect f xs = Inr (map g xs)"
  by (induction xs) simp_all

lemma d_ratio_entry_total: "d_ratio_entry F pair = Inr (d_ratio F pair, pair)"
  by (simp add: d_ratio_entry_def d_ratio_def get_d_spacing_def)

lemma possible_pairs_filter:
  assumes "planes c = Some ps"
  shows "possible_pairs F c target_ratio = Inr (filter (in_band F target_ratio) (combinations2 ps))"
proof -
  let ?keep = "\<lambda>i. np_less (fl_mul F target_ratio float_0_8) (fst i) \<and>
      np_less (fst i) (fl_mul F target_ratio float_1_2)"
  have "get_d_ratio F c = Inr (map (\<lambda>pair. (d_ratio F pair, pair)) (combinations2 ps))"
    unfolding get_d_ratio_def assms option.case
    by (rule collect_total) (rule d_ratio_entry_total)
  then have "possible_pairs F c target_ratio =
      Inr (map snd (filter ?keep (map (\<lambda>pair. (d_ratio F pair, pair)) (combinations2 ps))))"
    by (simp add: possible_pairs_def Let_def)
  also have "map snd (filter ?keep (map (\<lambda>pair. (d_ratio F pair, pair)) (combinations2 ps)))
      = filter (\<lambda>pair. ?keep (d_ratio F pair, pair)) (combinations2 ps)"
    by (simp add: filter_map comp_def)
  also have "\<dots> = filter (in_band F target_ratio) (combinations2 ps)"
    by (rule filter_cong [OF refl]) (simp add: in_band_def)
  finally show ?thesis .
qed

lemma np_less_irrefl: "\<not> np_less x x"
  by (cases x) simp_all

lemma equivalents_loop_find:
  "equivalents_loop F p es a =
     (case find (qualifies F a p) es of
        None \<Rightarrow> []
      | Some e \<Rightarrow> [\<lparr>vector_1 = p, vector_2 = e, zone_axis = get_zone_axis p e\<rparr>])"
  by (induction es) (simp_all add: qualifies_def)

lemma pairs_loop_map_filter:
  "pairs_loop F (filter (in_band F r) pairs) a = List.map_filter (match_of F r a) pairs"
proof (induction pairs)
  case Nil
  then show ?case by (simp add: List.map_filter_simps)
next
  case (Cons pair pairs)
  then show ?case
    by (cases "find (qualifies F a (fst pair)) (get_equivalent_planes (snd pair))")
      (simp_all add: List.map_filter_simps match_of_def equivalents_loop_find)
qed

lemma find_pairs_map_filter:
  assumes "planes c = Some ps"
  shows "find_pairs F c r a = Inr (List.map_filter (match_of F r a) (combinations2 ps))"
  using possible_pairs_filter [OF assms, of F r]
  by (simp add: find_pairs_def pairs_loop_map_filter)

lemma equivalents_loop_first:
  assumes "i < length es" and "qualifies F a p (es ! i)"
    and "\<And>j. j < i \<Longrightarrow> \<not> qualifies F a p (es ! j)"
  shows "equivalents_loop F p es a =
    [\<lparr>vector_1 = p, vector_2 = es ! i, zone_axis = get_zone_axis p (es ! i)\<rparr>]"
proof -
  have "find (qualifies F a p) es = Some (es ! i)"
    unfolding find_Some_iff using assms by blast
  then show ?thesis by (simp add: equivalents_loop_find)
qed

lemma pairs_loop_concat:
  "pairs_loop F pairs a =
     concat (map (\<lambda>pair. equivalents_loop F (fst pair) (get_equivalent_planes (snd pair)) a) pairs)"
  by (induction pairs) simp_all

subsection \<open>The exact operations\<close>

lemma exact_ops_simps:
  "fl_norm exact_ops s = sqrt (real_of_int s)"
  "fl_div exact_ops a b = Fin (a / b)"
  "fl_mul exact_ops a b = Fin (a * b)"
  "fl_of_int exact_ops i = real_of_int i"
  "fl_dot exact_ops = exact_dot"
  "fl_arccos exact_ops = exact_arccos"
  "fl_rad2deg exact_ops = exact_rad2deg"
  by (simp_all add: exact_ops_def)

lemma accurate_exact_ops: "accurate exact_ops"
  by (simp add: accurate_def exact_ops_simps tolerance_def)

lemma angle_between_exact:
  assumes "sqrt (real_of_int (a * a + b * b + c * c)) \<noteq> 0"
    and "sqrt (real_of_int (d * d + e * e + f * f)) \<noteq> 0"
  shows "angle_between exact_ops (CrystalPlane a b c) (CrystalPlane d e f) =
    Fin (arccos (min (max
      (real_of_int a / sqrt (real_of_int (a * a + b * b + c * c)) *
         (real_of_int d / sqrt (real_of_int (d * d + e * e + f * f))) +
       real_of_int b / sqrt (real_of_int (a * a + b * b + c * c)) *
         (real_of_int e / sqrt (real_of_int (d * d + e * e + f * f))) +
       real_of_int c / sqrt (real_of_int (a * a + b * b + c * c)) *
         (real_of_int f / sqrt (real_of_int (d * d + e * e + f * f)))) (- 1)) 1) * (180 / pi))"
  using assms
  by (simp add: angle_between_def linalg_norm_def exact_ops_simps Let_def
      del: of_int_add of_int_mult)

lemma clipped_angle_less_60:
  fixes v :: real
  assumes "1 / 2 < v"
  shows "arccos (min (max v (- 1)) 1) * (180 / pi) < 60"
proof -
  let ?x = "min (max v (- 1)) 1"
  have "1 / 2 < ?x" and "\<bar>?x\<bar> \<le> 1"
    using assms by simp_all
  then have "arccos ?x < arccos (1 / 2)"
    by (simp only: arccos_less_mono)
  then have "arccos ?x < pi / 3" by simp
  then have "arccos ?x * 180 < 60 * pi" by simp
  then show ?thesis
    by (simp add: pos_divide_less_eq)
qed

lemma qualifies_exact_of_dot:
  assumes "sqrt (real_of_int (a * a + b * b + c * c)) \<noteq> 0"
    and "sqrt (real_of_int (d * d + e * e + f * f)) \<noteq> 0"
    and "1 / 2 <
      real_of_int a / sqrt (real_of_int (a * a + b * b + c * c)) *
         (real_of_int d / sqrt (real_of_int (d * d + e * e + f * f))) +
       real_of_int b / sqrt (real_of_int (a * a + b * b + c * c)) *
         (real_of_int e / sqrt (real_of_int (d * d + e * e + f * f))) +
       real_of_int c / sqrt (real_of_int (a * a + b * b + c * c)) *
         (real_of_int f / sqrt (real_of_int (d * d + e * e + f * f)))"
    and "60 \<le> t"
  shows "qualifies exact_ops t (CrystalPlane a b c) (CrystalPlane d e f)"
proof -
  from assms(3) assms(4) show ?thesis
    unfolding qualifies_def angle_between_exact [OF assms(1,2)] np_less.simps
    by (rule clipped_angle_less_60 [THEN less_le_trans])
qed

subsection \<open>Consequences of accuracy\<close>

lemma tolerance_bounds: "0 < tolerance" "tolerance < 1 / 10 ^ 8"
  by (simp_all add: tolerance_def)

lemma close_interval:
  fixes x y :: real
  assumes "\<bar>x - y\<bar> \<le> tolerance * \<bar>y\<bar>" and "0 < lo" and "lo \<le> y" and "y \<le> hi"
  shows "lo * (1 - tolerance) \<le> x" and "x \<le> hi * (1 + tolerance)"
proof -
  have y: "0 < y" using assms(2,3) by linarith
  have t: "0 < 1 - tolerance" "0 < 1 + tolerance" by (simp_all add: tolerance_def)
  from assms(1) y have "y - tolerance * y \<le> x" "x \<le> y + tolerance * y" by (simp_all add: abs_le_iff)
  then have x: "y * (1 - tolerance) \<le> x" "x \<le> y * (1 + tolerance)" by (simp_all add: algebra_simps)
  have "lo * (1 - tolerance) \<le> y * (1 - tolerance)"
    using assms(3) t(1) by (simp add: mult_right_mono)
  with x(1) show "lo * (1 - tolerance) \<le> x" by linarith
  have "y * (1 + tolerance) \<le> hi * (1 + tolerance)"
    using assms(4) t(2) by (simp add: mult_right_mono)
  with x(2) show "x \<le> hi * (1 + tolerance)" by linarith
qed

lemma accurate_norm:
  assumes "accurate F" and "0 \<le> s" and "s \<le> 2 ^ 128"
  shows "\<bar>fl_norm F s - sqrt (real_of_int s)\<bar> \<le> tolerance * sqrt (real_of_int s)"
  using assms unfolding accurate_def by blast

lemma accurate_norm_zero: "accurate F \<Longrightarrow> fl_norm F 0 = 0"
  using accurate_norm [of F 0] by simp

lemma accurate_div:
  assumes "accurate F" and "0 < la" and "la \<le> a" and "a \<le> ha"
    and "0 < lb" and "lb \<le> b" and "b \<le> hb"
    and "1 / 10 ^ 100 \<le> la / hb" and "ha / lb \<le> 10 ^ 100"
  shows "\<exists>x. fl_div F a b = Fin x \<and> la / hb * (1 - tolerance) \<le> x \<and> x \<le> ha / lb * (1 + tolerance)"
proof -
  have pos: "0 < a" "0 < b" "0 < hb" "0 < ha" using assms(2-7) by linarith+
  have lo: "la / hb \<le> a / b"
    using assms(2,3,5,6,7) pos by (intro frac_le) simp_all
  have hi: "a / b \<le> ha / lb"
    using assms(4,5,6) pos by (intro frac_le) simp_all
  have q: "0 < la / hb" using assms(2) pos by simp
  then have "0 < a / b" using lo by linarith
  then have "\<bar>a / b\<bar> = a / b" by (rule abs_of_pos)
  moreover have "1 / 10 ^ 100 \<le> a / b" using assms(8) lo by (rule order_trans)
  moreover have "a / b \<le> 10 ^ 100" using hi assms(9) by (rule order_trans)
  ultimately have "b \<noteq> 0 \<and> 1 / 10 ^ 100 \<le> \<bar>a / b\<bar> \<and> \<bar>a / b\<bar> \<le> 10 ^ 100"
    using pos(2) by (simp only:) simp
  then obtain x where x: "fl_div F a b = Fin x" "\<bar>x - a / b\<bar> \<le> tolerance * \<bar>a / b\<bar>"
    using assms(1) unfolding accurate_def by blast
  from close_interval [OF x(2) q lo hi] x(1) show ?thesis by blast
qed

lemma accurate_div_zero: "accurate F \<Longrightarrow> b \<noteq> 0 \<Longrightarrow> fl_div F 0 b = Fin 0"
  unfolding accurate_def by blast

lemma accurate_mul:
  assumes "accurate F" and "0 < la" and "la \<le> a" and "a \<le> ha"
    and "0 < lb" and "lb \<le> b" and "b \<le> hb"
    and "1 / 10 ^ 100 \<le> la * lb" and "ha * hb \<le> 10 ^ 100"
  shows "\<exists>x. fl_mul F a b = Fin x \<and> la * lb * (1 - tolerance) \<le> x \<and> x \<le> ha * hb * (1 + tolerance)"
proof -
  have pos: "0 < a" "0 < b" using assms(2-7) by linarith+
  have lo: "la * lb \<le> a * b"
    using assms(2,3,5,6) by (intro mult_mono) simp_all
  have hi: "a * b \<le> ha * hb"
    using assms(4,7) pos by (intro mult_mono) simp_all
  have q: "0 < la * lb" using assms(2,5) by simp
  then have "0 < a * b" using lo by linarith
  then have "\<bar>a * b\<bar> = a * b" by (rule abs_of_pos)
  moreover have "1 / 10 ^ 100 \<le> a * b" using assms(8) lo by (rule order_trans)
  moreover have "a * b \<le> 10 ^ 100" using hi assms(9) by (rule order_trans)
  ultimately have "1 / 10 ^ 100 \<le> \<bar>a * b\<bar> \<and> \<bar>a * b\<bar> \<le> 10 ^ 100"
    by (simp only:)
  then obtain x where x: "fl_mul F a b = Fin x" "\<bar>x - a * b\<bar> \<le> tolerance * \<bar>a * b\<bar>"
    using assms(1) unfolding accurate_def by blast
  from close_interval [OF x(2) q lo hi] x(1) show ?thesis by blast
qed

lemma accurate_of_int: "accurate F \<Longrightarrow> \<bar>i\<bar> \<le> 2 ^ 53 \<Longrightarrow> fl_of_int F i = real_of_int i"
  unfolding accurate_def by blast

lemma accurate_dot:
  assumes "accurate F"
    and "\<bar>a1\<bar> \<le> 2" "\<bar>a2\<bar> \<le> 2" "\<bar>a3\<bar> \<le> 2" "\<bar>b1\<bar> \<le> 2" "\<bar>b2\<bar> \<le> 2" "\<bar>b3\<bar> \<le> 2"
  shows "\<exists>x. fl_dot F (Fin a1, Fin a2, Fin a3) (Fin b1, Fin b2, Fin b3) = Fin x \<and>
            \<bar>x - (a1 * b1 + a2 * b2 + a3 * b3)\<bar> \<le> tolerance"
  using assms unfolding accurate_def by blast

lemma accurate_arccos:
  "accurate F \<Longrightarrow> \<bar>x\<bar> \<le> 1 \<Longrightarrow> \<exists>y. fl_arccos F (Fin x) = Fin y \<and> \<bar>y - arccos x\<bar> \<le> tolerance"
  unfolding accurate_def by blast

lemma accurate_rad2deg:
  "accurate F \<Longrightarrow> \<bar>y\<bar> \<le> 4 \<Longrightarrow>
     \<exists>z. fl_rad2deg F (Fin y) = Fin z \<and> \<bar>z - y * (180 / pi)\<bar> \<le> tolerance"
  unfolding accurate_def by blast

subsection \<open>The d-spacing of a plane\<close>

lemma int64_square_bound: "int64_range x \<Longrightarrow> x * x \<le> 2 ^ 126"
proof -
  assume "int64_range x"
  then have "\<bar>x\<bar> \<le> 2 ^ 63" by (simp add: int64_range_def abs_le_iff)
  then have "\<bar>x\<bar> * \<bar>x\<bar> \<le> 2 ^ 63 * 2 ^ 63" by (intro mult_mono) simp_all
  then show ?thesis by (simp add: abs_mult_self_eq)
qed

lemma d_spacing_of_norm:
  assumes "accurate F" and "1 \<le> s" and "s \<le> 2 ^ 128"
  shows "\<exists>d. np_div F (Fin 1) (Fin (fl_norm F s)) = Fin d \<and>
    \<bar>d - 1 / sqrt (real_of_int s)\<bar> \<le> (1 / 10 ^ 8) / sqrt (real_of_int s)"
proof -
  define r where "r = sqrt (real_of_int s)"
  define n where "n = fl_norm F s"
  have r1: "1 \<le> r" using assms(2) by (simp add: r_def)
  have "real_of_int s \<le> real_of_int (2 ^ 128)" using assms(3) by (simp only: of_int_le_iff)
  also have "real_of_int (2 ^ 128) = (2 ^ 64)\<^sup>2" by simp
  finally have "real_of_int s \<le> (2 ^ 64)\<^sup>2" .
  then have r2: "r \<le> 2 ^ 64" unfolding r_def by (intro real_le_lsqrt) simp_all
  have "\<bar>n - r\<bar> \<le> tolerance * \<bar>r\<bar>"
    using accurate_norm [OF assms(1), of s] assms(2,3) r1 by (simp add: n_def r_def)
  then have n: "r * (1 - tolerance) \<le> n" "n \<le> r * (1 + tolerance)"
    using close_interval [of n r r r] r1 by simp_all
  have lb: "0 < r * (1 - tolerance)" using r1 by (simp add: tolerance_def)
  then have npos: "0 < n" using n(1) by linarith
  have c1: "1 / 10 ^ 100 \<le> 1 / (r * (1 + tolerance))"
  proof -
    have "r * (1 + tolerance) \<le> 2 ^ 64 * 2" using r2 r1 by (intro mult_mono) (simp_all add: tolerance_def)
    also have "\<dots> \<le> (10 ^ 100 :: real)" by simp
    finally have "r * (1 + tolerance) \<le> 10 ^ 100" .
    moreover have "0 < r * (1 + tolerance)" using r1 by (simp add: tolerance_def)
    ultimately show ?thesis by (intro divide_left_mono) simp_all
  qed
  have c2: "1 / (r * (1 - tolerance)) \<le> 10 ^ 100"
  proof -
    have "1 / 2 \<le> 1 * (1 - tolerance)" by (simp add: tolerance_def)
    also have "\<dots> \<le> r * (1 - tolerance)" using r1 by (intro mult_right_mono) (simp_all add: tolerance_def)
    finally have "1 / 2 \<le> r * (1 - tolerance)" .
    then have "1 / (r * (1 - tolerance)) \<le> 1 / (1 / 2)" by (intro divide_left_mono) simp_all
    then show ?thesis by simp
  qed
  obtain d where d: "fl_div F 1 n = Fin d"
    "1 / (r * (1 + tolerance)) * (1 - tolerance) \<le> d"
    "d \<le> 1 / (r * (1 - tolerance)) * (1 + tolerance)"
    using accurate_div [OF assms(1), of 1 1 1 "r * (1 - tolerance)" n "r * (1 + tolerance)"]
      lb n c1 c2 by auto
  have rpos: "0 < r" using r1 by linarith
  have lo: "(1 - 1 / 10 ^ 8) / r \<le> 1 / (r * (1 + tolerance)) * (1 - tolerance)"
  proof -
    have "1 / (r * (1 + tolerance)) * (1 - tolerance) = ((1 - tolerance) / (1 + tolerance)) / r"
      by simp
    moreover have "(1 - 1 / 10 ^ 8 :: real) \<le> (1 - tolerance) / (1 + tolerance)"
      by (simp add: tolerance_def)
    ultimately show ?thesis using rpos by (simp only: divide_right_mono less_imp_le)
  qed
  have hi: "1 / (r * (1 - tolerance)) * (1 + tolerance) \<le> (1 + 1 / 10 ^ 8) / r"
  proof -
    have "1 / (r * (1 - tolerance)) * (1 + tolerance) = ((1 + tolerance) / (1 - tolerance)) / r"
      by simp
    moreover have "(1 + tolerance) / (1 - tolerance) \<le> (1 + 1 / 10 ^ 8 :: real)"
      by (simp add: tolerance_def)
    ultimately show ?thesis using rpos by (simp only: divide_right_mono less_imp_le)
  qed
  have "(1 - 1 / 10 ^ 8) / r \<le> d" "d \<le> (1 + 1 / 10 ^ 8) / r"
    using lo hi d(2,3) by linarith+
  then have "1 / r - (1 / 10 ^ 8) / r \<le> d" "d \<le> 1 / r + (1 / 10 ^ 8) / r"
    by (simp_all add: diff_divide_distrib add_divide_distrib)
  then have "\<bar>d - 1 / r\<bar> \<le> (1 / 10 ^ 8) / r" by (simp add: abs_le_iff)
  moreover have "np_div F (Fin 1) (Fin n) = Fin d" using npos d(1) by simp
  ultimately show ?thesis unfolding r_def n_def by blast
qed

text \<open>
  C3, as the claim states it, fails at the zero plane: \<open>get_d_spacing\<close> raises nothing there,
  it returns the float infinity.
\<close>

theorem d_spacing_zero_counterexample:
  "get_d_spacing exact_ops (CrystalPlane 0 0 0) = Inr PInf \<and>
   get_d_spacing exact_ops (CrystalPlane 0 0 0) \<noteq> Inl ZeroDivisionError"
  by (simp add: get_d_spacing_def linalg_norm_def exact_ops_simps)

text \<open>
  C3, amended: for indices in the signed 64-bit range and accurate floating-point operations,
  \<open>get_d_spacing\<close> never raises; for the zero plane it returns the float infinity, and for every
  other plane a finite float within a relative error of \<open>10\<^sup>-\<^sup>8\<close> of \<open>1 / sqrt (h\<^sup>2 + k\<^sup>2 + l\<^sup>2)\<close>.
\<close>

theorem d_spacing_never_raises:
  assumes "accurate F" and "int64_range a" and "int64_range b" and "int64_range c"
  shows "(a = 0 \<and> b = 0 \<and> c = 0 \<longrightarrow> get_d_spacing F (CrystalPlane a b c) = Inr PInf) \<and>
    (\<not> (a = 0 \<and> b = 0 \<and> c = 0) \<longrightarrow>
      (\<exists>d. get_d_spacing F (CrystalPlane a b c) = Inr (Fin d) \<and>
         \<bar>d - 1 / sqrt (real_of_int (a\<^sup>2 + b\<^sup>2 + c\<^sup>2))\<bar>
           \<le> (1 / 10 ^ 8) / sqrt (real_of_int (a\<^sup>2 + b\<^sup>2 + c\<^sup>2))))"
proof (intro conjI impI)
  assume "a = 0 \<and> b = 0 \<and> c = 0"
  then show "get_d_spacing F (CrystalPlane a b c) = Inr PInf"
    using accurate_norm_zero [OF assms(1)] by (simp add: get_d_spacing_def linalg_norm_def)
next
  assume nz: "\<not> (a = 0 \<and> b = 0 \<and> c = 0)"
  define s where "s = a * a + b * b + c * c"
  have "s \<noteq> 0" using nz sum3_squares_eq_zero_iff [of a b c] unfolding s_def by blast
  moreover have "0 \<le> s" unfolding s_def by simp
  ultimately have s1: "1 \<le> s" by linarith
  have "s \<le> 2 ^ 126 + 2 ^ 126 + 2 ^ 126"
    unfolding s_def using assms(2-4) by (intro add_mono int64_square_bound)
  then have s2: "s \<le> 2 ^ 128" by simp
  have "a\<^sup>2 + b\<^sup>2 + c\<^sup>2 = s" by (simp add: s_def power2_eq_square)
  moreover have "get_d_spacing F (CrystalPlane a b c) = Inr (np_div F (Fin 1) (Fin (fl_norm F s)))"
    by (simp add: get_d_spacing_def linalg_norm_def s_def)
  ultimately show "\<exists>d. get_d_spacing F (CrystalPlane a b c) = Inr (Fin d) \<and>
         \<bar>d - 1 / sqrt (real_of_int (a\<^sup>2 + b\<^sup>2 + c\<^sup>2))\<bar>
           \<le> (1 / 10 ^ 8) / sqrt (real_of_int (a\<^sup>2 + b\<^sup>2 + c\<^sup>2))"
    using d_spacing_of_norm [OF assms(1) s1 s2] by (simp only:) blast
qed

theorem d_spacing_never_raises_witness:
  "\<exists>d. get_d_spacing exact_ops (CrystalPlane 0 0 2) = Inr (Fin d) \<and> \<bar>d - 1 / 2\<bar> \<le> 1 / 10 ^ 8"
proof -
  have r: "int64_range 0" "int64_range 2" by (simp_all add: int64_range_def)
  have "\<exists>d. get_d_spacing exact_ops (CrystalPlane 0 0 2) = Inr (Fin d) \<and>
         \<bar>d - 1 / sqrt (real_of_int (0\<^sup>2 + 0\<^sup>2 + 2\<^sup>2))\<bar>
           \<le> (1 / 10 ^ 8) / sqrt (real_of_int (0\<^sup>2 + 0\<^sup>2 + 2\<^sup>2))"
    using d_spacing_never_raises [OF accurate_exact_ops r(1) r(1) r(2)] by simp
  then obtain d where "get_d_spacing exact_ops (CrystalPlane 0 0 2) = Inr (Fin d)"
    and "\<bar>d - 1 / sqrt (real_of_int (0\<^sup>2 + 0\<^sup>2 + 2\<^sup>2))\<bar>
           \<le> (1 / 10 ^ 8) / sqrt (real_of_int (0\<^sup>2 + 0\<^sup>2 + 2\<^sup>2))" by blast
  moreover have "sqrt (real_of_int (0\<^sup>2 + 0\<^sup>2 + 2\<^sup>2)) = 2" by simp
  ultimately have "get_d_spacing exact_ops (CrystalPlane 0 0 2) = Inr (Fin d) \<and> \<bar>d - 1 / 2\<bar> \<le> 1 / 10 ^ 8"
    by simp
  then show ?thesis by blast
qed

subsection \<open>Constructed crystals\<close>

lemma Crystal_FCC_8:
  "Crystal_init (Literal ''FCC'') 8 = Inr \<lparr>crystal_system = FCC, order = 8, planes = Some
     [CrystalPlane 1 1 1, CrystalPlane 0 0 2, CrystalPlane 0 2 2, CrystalPlane 1 1 3,
      CrystalPlane 2 2 2, CrystalPlane 0 0 4, CrystalPlane 1 3 3, CrystalPlane 0 2 4]\<rparr>"
  by code_simp

lemma Crystal_SC_3:
  "Crystal_init (Literal ''SC'') 3 = Inr \<lparr>crystal_system = SC, order = 3, planes = Some
     [CrystalPlane 0 0 1, CrystalPlane 0 1 1, CrystalPlane 1 1 1]\<rparr>"
  by code_simp

subsection \<open>The planes (1, 1, 1) and (0, 0, 4) under accurate operations\<close>

lemma sqrt3_bounds: "173 / 100 < sqrt 3" "sqrt 3 < 174 / 100"
proof -
  show "173 / 100 < sqrt 3" by (rule real_less_rsqrt) (simp add: power2_eq_square)
  show "sqrt 3 < 174 / 100" by (rule real_less_lsqrt) (simp_all add: power2_eq_square)
qed

lemma sqrt2_bounds: "141 / 100 < sqrt 2" "sqrt 2 < 142 / 100"
proof -
  show "141 / 100 < sqrt 2" by (rule real_less_rsqrt) (simp add: power2_eq_square)
  show "sqrt 2 < 142 / 100" by (rule real_less_lsqrt) (simp_all add: power2_eq_square)
qed

lemma sqrt16: "sqrt 16 = 4"
  using real_sqrt_abs [of 4] by simp

lemma norm_3_bounds:
  assumes "accurate F"
  shows "17 / 10 \<le> fl_norm F 3" "fl_norm F 3 \<le> 18 / 10"
proof -
  have "\<bar>fl_norm F 3 - sqrt 3\<bar> \<le> tolerance * \<bar>sqrt 3\<bar>"
    using accurate_norm [OF assms, of 3] by simp
  then have "173 / 100 * (1 - tolerance) \<le> fl_norm F 3" "fl_norm F 3 \<le> 174 / 100 * (1 + tolerance)"
    using close_interval [of "fl_norm F 3" "sqrt 3" "173 / 100" "174 / 100"] sqrt3_bounds
    by simp_all
  then show "17 / 10 \<le> fl_norm F 3" "fl_norm F 3 \<le> 18 / 10"
    by (simp_all add: tolerance_def)
qed

lemma norm_16_bounds:
  assumes "accurate F"
  shows "39 / 10 \<le> fl_norm F 16" "fl_norm F 16 \<le> 41 / 10"
proof -
  have "\<bar>fl_norm F 16 - 4\<bar> \<le> tolerance * \<bar>4\<bar>"
    using accurate_norm [OF assms, of 16] by (simp add: sqrt16)
  then have "4 * (1 - tolerance) \<le> fl_norm F 16" "fl_norm F 16 \<le> 4 * (1 + tolerance)"
    using close_interval [of "fl_norm F 16" 4 4 4] by simp_all
  then show "39 / 10 \<le> fl_norm F 16" "fl_norm F 16 \<le> 41 / 10"
    by (simp_all add: tolerance_def)
qed

lemma inverse_norm_3:
  assumes "accurate F"
  obtains x where "fl_div F 1 (fl_norm F 3) = Fin x" "55 / 100 \<le> x" "x \<le> 59 / 100"
proof -
  obtain x where x: "fl_div F 1 (fl_norm F 3) = Fin x"
    "1 / (18 / 10) * (1 - tolerance) \<le> x" "x \<le> 1 / (17 / 10) * (1 + tolerance)"
    using accurate_div [OF assms, of 1 1 1 "17 / 10" "fl_norm F 3" "18 / 10"]
      norm_3_bounds [OF assms] by auto
  from x(2,3) have "55 / 100 \<le> x" "x \<le> 59 / 100" by (simp_all add: tolerance_def)
  with x(1) show ?thesis by (rule that)
qed

lemma inverse_norm_16:
  assumes "accurate F"
  obtains x where "fl_div F 1 (fl_norm F 16) = Fin x" "24 / 100 \<le> x" "x \<le> 26 / 100"
proof -
  obtain x where x: "fl_div F 1 (fl_norm F 16) = Fin x"
    "1 / (41 / 10) * (1 - tolerance) \<le> x" "x \<le> 1 / (39 / 10) * (1 + tolerance)"
    using accurate_div [OF assms, of 1 1 1 "39 / 10" "fl_norm F 16" "41 / 10"]
      norm_16_bounds [OF assms] by auto
  from x(2,3) have "24 / 100 \<le> x" "x \<le> 26 / 100" by (simp_all add: tolerance_def)
  with x(1) show ?thesis by (rule that)
qed

lemma four_over_norm_16:
  assumes "accurate F"
  obtains y where "fl_div F 4 (fl_norm F 16) = Fin y" "97 / 100 \<le> y" "y \<le> 103 / 100"
proof -
  obtain y where y: "fl_div F 4 (fl_norm F 16) = Fin y"
    "4 / (41 / 10) * (1 - tolerance) \<le> y" "y \<le> 4 / (39 / 10) * (1 + tolerance)"
    using accurate_div [OF assms, of 4 4 4 "39 / 10" "fl_norm F 16" "41 / 10"]
      norm_16_bounds [OF assms] by auto
  from y(2,3) have "97 / 100 \<le> y" "y \<le> 103 / 100" by (simp_all add: tolerance_def)
  with y(1) show ?thesis by (rule that)
qed

lemma float_literal_bounds:
  "8 / 10 \<le> float_0_8" "float_0_8 \<le> 8001 / 10000"
  "11999 / 10000 \<le> float_1_2" "float_1_2 \<le> 12 / 10"
  by (simp_all add: float_0_8_def float_1_2_def)

lemma in_band_111_004:
  assumes "accurate F" and "\<bar>r - 28.93 / 11.11\<bar> \<le> 1 / 1000"
  shows "in_band F r (CrystalPlane 1 1 1, CrystalPlane 0 0 4)"
proof -
  obtain x1 where x1: "fl_div F 1 (fl_norm F 3) = Fin x1" "55 / 100 \<le> x1" "x1 \<le> 59 / 100"
    using assms(1) by (rule inverse_norm_3)
  obtain x2 where x2: "fl_div F 1 (fl_norm F 16) = Fin x2" "24 / 100 \<le> x2" "x2 \<le> 26 / 100"
    using assms(1) by (rule inverse_norm_16)
  have n3: "fl_norm F 3 \<noteq> 0" using norm_3_bounds(1) [OF assms(1)] by linarith
  have n16: "fl_norm F 16 \<noteq> 0" using norm_16_bounds(1) [OF assms(1)] by linarith
  obtain q where q: "fl_div F x1 x2 = Fin q"
    "(55 / 100) / (26 / 100) * (1 - tolerance) \<le> q" "q \<le> (59 / 100) / (24 / 100) * (1 + tolerance)"
    using accurate_div [OF assms(1), of "55 / 100" x1 "59 / 100" "24 / 100" x2 "26 / 100"] x1(2,3) x2(2,3)
    by auto
  have x2n: "x2 \<noteq> 0" using x2(2) by linarith
  have ratio: "d_ratio F (CrystalPlane 1 1 1, CrystalPlane 0 0 4) = Fin q"
    using n3 n16 x1(1) x2(1) x2n q(1)
    by (simp add: d_ratio_def get_d_spacing_def linalg_norm_def)
  have qb: "211 / 100 \<le> q" "q \<le> 246 / 100"
    using q(2,3) by (simp_all add: tolerance_def)
  have "r - 28.93 / 11.11 \<le> 1 / 1000" "- (r - 28.93 / 11.11) \<le> 1 / 1000"
    using assms(2) by (simp_all only: abs_le_iff)
  then have rb: "26 / 10 \<le> r" "r \<le> 2605 / 1000"
    by simp_all
  obtain lo where lo: "fl_mul F r float_0_8 = Fin lo"
    "lo \<le> 2605 / 1000 * (8001 / 10000) * (1 + tolerance)"
    using accurate_mul [OF assms(1), of "26 / 10" r "2605 / 1000" "8 / 10" float_0_8 "8001 / 10000"]
      rb float_literal_bounds by auto
  obtain hi where hi: "fl_mul F r float_1_2 = Fin hi"
    "26 / 10 * (11999 / 10000) * (1 - tolerance) \<le> hi"
    using accurate_mul [OF assms(1), of "26 / 10" r "2605 / 1000" "11999 / 10000" float_1_2 "12 / 10"]
      rb float_literal_bounds by auto
  have "lo < q" using lo(2) qb(1) by (simp add: tolerance_def)
  moreover have "q < hi" using hi(2) qb(2) by (simp add: tolerance_def)
  ultimately show ?thesis
    by (simp add: in_band_def ratio lo(1) hi(1))
qed

lemma qualifies_111_004:
  assumes "accurate F"
  shows "qualifies F 66 (CrystalPlane 1 1 1) (CrystalPlane 0 0 4)"
proof -
  obtain x where x: "fl_div F 1 (fl_norm F 3) = Fin x" "55 / 100 \<le> x" "x \<le> 59 / 100"
    using assms by (rule inverse_norm_3)
  obtain y where y: "fl_div F 4 (fl_norm F 16) = Fin y" "97 / 100 \<le> y" "y \<le> 103 / 100"
    using assms by (rule four_over_norm_16)
  have n3: "fl_norm F 3 \<noteq> 0" using norm_3_bounds(1) [OF assms] by linarith
  have n16: "fl_norm F 16 \<noteq> 0" using norm_16_bounds(1) [OF assms] by linarith
  have conv: "fl_of_int F 1 = 1" "fl_of_int F 0 = 0" "fl_of_int F 4 = 4"
    using accurate_of_int [OF assms, of 1] accurate_of_int [OF assms, of 0]
      accurate_of_int [OF assms, of 4] by simp_all
  have u1: "unit_vector F (planenormal (CrystalPlane 1 1 1)) = (Fin x, Fin x, Fin x)"
    using n3 x(1) by (simp add: linalg_norm_def conv)
  have u2: "unit_vector F (planenormal (CrystalPlane 0 0 4)) = (Fin 0, Fin 0, Fin y)"
    using n16 y(1) accurate_div_zero [OF assms n16] by (simp add: linalg_norm_def conv)
  obtain z where z: "fl_dot F (Fin x, Fin x, Fin x) (Fin 0, Fin 0, Fin y) = Fin z"
    "\<bar>z - (x * 0 + x * 0 + x * y)\<bar> \<le> tolerance"
    using accurate_dot [OF assms, of x x x 0 0 y] x(2,3) y(2,3) by auto
  define m where "m = x * y"
  have "55 / 100 * (97 / 100) \<le> x * y" using x(2) y(2) by (intro mult_mono) simp_all
  moreover have "x * y \<le> 59 / 100 * (103 / 100)" using x(2,3) y(2,3) by (intro mult_mono) simp_all
  ultimately have mb: "5335 / 10000 \<le> m" "m \<le> 6077 / 10000" by (simp_all add: m_def)
  have "\<bar>z - m\<bar> \<le> tolerance" using z(2) by (simp add: m_def)
  then have "z - m \<le> tolerance" "- (z - m) \<le> tolerance" by (simp_all only: abs_le_iff)
  with mb have zb: "53 / 100 \<le> z" "z \<le> 61 / 100"
    by (simp_all add: tolerance_def)
  then have clipz: "clip (Fin z) (- 1) 1 = Fin z" by simp
  obtain w where w: "fl_arccos F (Fin z) = Fin w" "\<bar>w - arccos z\<bar> \<le> tolerance"
    using accurate_arccos [OF assms, of z] zb by auto
  have "\<bar>z\<bar> \<le> 1" "\<bar>1 / 2\<bar> \<le> (1::real)" "1 / 2 < z"
    using zb by simp_all
  then have "arccos z < arccos (1 / 2)"
    by (simp only: arccos_less_mono)
  then have az: "arccos z < pi / 3" by simp
  have az0: "0 \<le> arccos z" using zb by (intro arccos_lbound) simp_all
  have "w - arccos z \<le> tolerance" "- (w - arccos z) \<le> tolerance"
    using w(2) by (simp_all only: abs_le_iff)
  then have wb: "- tolerance \<le> w" "w \<le> pi / 3 + tolerance"
    using az az0 by linarith+
  have "pi / 3 + tolerance \<le> 4" using pi_less_4 by (simp add: tolerance_def)
  moreover have "- 4 \<le> - tolerance" by (simp add: tolerance_def)
  ultimately have "\<bar>w\<bar> \<le> 4" using wb by (simp only: abs_le_iff) linarith
  then obtain v where v: "fl_rad2deg F (Fin w) = Fin v" "\<bar>v - w * (180 / pi)\<bar> \<le> tolerance"
    using accurate_rad2deg [OF assms, of w] by auto
  have "w * (180 / pi) \<le> (pi / 3 + tolerance) * (180 / pi)"
    using wb(2) by (intro mult_right_mono) simp_all
  also have "\<dots> = 60 + tolerance * (180 / pi)"
  proof -
    have "pi / 3 * (180 / pi) = 60" by simp
    then show ?thesis by (simp only: distrib_right)
  qed
  also have "\<dots> \<le> 60 + tolerance * 90"
  proof -
    have "180 / pi \<le> 180 / 2" using pi_ge_two by (intro divide_left_mono) simp_all
    then have "180 / pi \<le> 90" by simp
    then have "tolerance * (180 / pi) \<le> tolerance * 90"
      using tolerance_bounds(1) by (intro mult_left_mono) simp_all
    then show ?thesis by (simp only: add_left_mono)
  qed
  finally have "w * (180 / pi) \<le> 60 + tolerance * 90" .
  moreover have "v - w * (180 / pi) \<le> tolerance"
    using v(2) by (simp only: abs_le_iff)
  moreover have "60 + tolerance * 90 + tolerance < 66" by (simp add: tolerance_def)
  ultimately have "v < 66" by linarith
  moreover have "angle_between F (CrystalPlane 1 1 1) (CrystalPlane 0 0 4) = Fin v"
    unfolding angle_between_def Let_def u1 u2 z(1) clipz w(1) v(1) ..
  ultimately show ?thesis
    by (simp only: qualifies_def np_less.simps)
qed

lemma map_filter_nonempty:
  "x \<in> set xs \<Longrightarrow> f x \<noteq> None \<Longrightarrow> List.map_filter f xs \<noteq> []"
  by (induction xs) (auto simp: List.map_filter_simps split: option.splits)

lemma match_of_111_004:
  assumes "accurate F" and "\<bar>r - 28.93 / 11.11\<bar> \<le> 1 / 1000"
  shows "match_of F r 66 (CrystalPlane 1 1 1, CrystalPlane 0 0 4) \<noteq> None"
proof -
  have "CrystalPlane 0 0 4 \<in> set (get_equivalent_planes (CrystalPlane 0 0 4))"
    by (simp add: get_equivalent_planes_explicit)
  then have "find (qualifies F 66 (CrystalPlane 1 1 1)) (get_equivalent_planes (CrystalPlane 0 0 4)) \<noteq> None"
    using qualifies_111_004 [OF assms(1)] by (auto simp: find_None_iff)
  then show ?thesis
    using in_band_111_004 [OF assms] by (simp add: match_of_def)
qed

text \<open>
  C2. For a constructed crystal with a plane sequence, the matches \<open>find_pairs\<close> reports are
  the matches of the pairs of \<open>combinations\<close> over that sequence, in the order of that
  enumeration (a pair that yields no match is skipped), whatever the rounding of the
  floating-point operations; the report is a function of the inputs, so repeated runs give
  the same sequence. For the \<open>FCC\<close> crystal of order 8, a target ratio within 0.001 of
  28.93 / 11.11 (as its \<open>float64\<close> value is), the threshold of 66 degrees and accurate
  operations, the report is not empty.
\<close>

theorem find_pairs_ordered_nonempty:
  "(Crystal_init sel n = Inr c \<and> planes c = Some ps \<longrightarrow>
      find_pairs F c r a = Inr (List.map_filter (match_of F r a) (combinations2 ps))) \<and>
   (accurate F \<and> \<bar>r' - 28.93 / 11.11\<bar> \<le> 1 / 1000 \<longrightarrow>
      (\<exists>c ms. Crystal_init (Literal ''FCC'') 8 = Inr c \<and>
         find_pairs F c r' 66 = Inr ms \<and> ms \<noteq> []))"
proof (intro conjI impI)
  assume "Crystal_init sel n = Inr c \<and> planes c = Some ps"
  then show "find_pairs F c r a = Inr (List.map_filter (match_of F r a) (combinations2 ps))"
    using find_pairs_map_filter by blast
next
  assume acc: "accurate F \<and> \<bar>r' - 28.93 / 11.11\<bar> \<le> 1 / 1000"
  let ?ps = "[CrystalPlane 1 1 1, CrystalPlane 0 0 2, CrystalPlane 0 2 2, CrystalPlane 1 1 3,
      CrystalPlane 2 2 2, CrystalPlane 0 0 4, CrystalPlane 1 3 3, CrystalPlane 0 2 4]"
  let ?c = "\<lparr>crystal_system = FCC, order = 8, planes = Some ?ps\<rparr>"
  let ?ms = "List.map_filter (match_of F r' 66) (combinations2 ?ps)"
  have init: "Crystal_init (Literal ''FCC'') 8 = Inr ?c" by (rule Crystal_FCC_8)
  have "planes ?c = Some ?ps" by simp
  then have "find_pairs F ?c r' 66 = Inr ?ms" by (rule find_pairs_map_filter)
  moreover have "(CrystalPlane 1 1 1, CrystalPlane 0 0 4) \<in> set (combinations2 ?ps)" by simp
  then have "?ms \<noteq> []"
    using match_of_111_004 acc by (intro map_filter_nonempty) blast+
  ultimately show "\<exists>c ms. Crystal_init (Literal ''FCC'') 8 = Inr c \<and>
      find_pairs F c r' 66 = Inr ms \<and> ms \<noteq> []"
    using init by blast
qed

subsection \<open>A crystal of three planes under the exact operations\<close>

lemma d_ratio_exact:
  assumes "sqrt (real_of_int (a * a + b * b + c * c)) \<noteq> 0"
    and "sqrt (real_of_int (d * d + e * e + f * f)) \<noteq> 0"
  shows "d_ratio exact_ops (CrystalPlane a b c, CrystalPlane d e f) =
    Fin (1 / sqrt (real_of_int (a * a + b * b + c * c)) /
         (1 / sqrt (real_of_int (d * d + e * e + f * f))))"
  using assms
  by (simp add: d_ratio_def get_d_spacing_def linalg_norm_def exact_ops_simps
      del: of_int_add of_int_mult)

lemma d_ratio_001_011:
  "d_ratio exact_ops (CrystalPlane 0 0 1, CrystalPlane 0 1 1) = Fin (sqrt 2)"
  using d_ratio_exact [of 0 0 1 0 1 1] by simp

lemma d_ratio_001_111:
  "d_ratio exact_ops (CrystalPlane 0 0 1, CrystalPlane 1 1 1) = Fin (sqrt 3)"
  using d_ratio_exact [of 0 0 1 1 1 1] by simp

lemma d_ratio_011_111:
  "d_ratio exact_ops (CrystalPlane 0 1 1, CrystalPlane 1 1 1) = Fin (sqrt 3 / sqrt 2)"
  using d_ratio_exact [of 0 1 1 1 1 1] by simp

lemma band_limits_5_4:
  "fl_mul exact_ops (5 / 4) float_0_8 = Fin (5 / 4 * float_0_8)"
  "fl_mul exact_ops (5 / 4) float_1_2 = Fin (5 / 4 * float_1_2)"
  "5 / 4 * float_0_8 \<le> 101 / 100" "149 / 100 \<le> 5 / 4 * float_1_2" "5 / 4 * float_1_2 \<le> 15 / 10"
  by (simp_all add: exact_ops_simps float_0_8_def float_1_2_def)

lemma in_band_001_011: "in_band exact_ops (5 / 4) (CrystalPlane 0 0 1, CrystalPlane 0 1 1)"
proof -
  have "5 / 4 * float_0_8 < sqrt 2" "sqrt 2 < 5 / 4 * float_1_2"
    using sqrt2_bounds band_limits_5_4(3,4) by linarith+
  then show ?thesis
    by (simp only: in_band_def d_ratio_001_011 band_limits_5_4(1,2) np_less.simps)
qed

lemma not_in_band_001_111: "\<not> in_band exact_ops (5 / 4) (CrystalPlane 0 0 1, CrystalPlane 1 1 1)"
proof -
  have "\<not> sqrt 3 < 5 / 4 * float_1_2"
    using sqrt3_bounds(1) band_limits_5_4(5) by linarith
  then show ?thesis
    by (simp only: in_band_def d_ratio_001_111 band_limits_5_4(1,2) np_less.simps) simp
qed

lemma in_band_011_111: "in_band exact_ops (5 / 4) (CrystalPlane 0 1 1, CrystalPlane 1 1 1)"
proof -
  have p2: "0 < sqrt 2" by simp
  have "101 / 100 * sqrt 2 < sqrt 3" using sqrt2_bounds(2) sqrt3_bounds(1) by linarith
  then have "101 / 100 < sqrt 3 / sqrt 2" using p2 by (simp only: pos_less_divide_eq)
  then have lo: "5 / 4 * float_0_8 < sqrt 3 / sqrt 2" using band_limits_5_4(3) by linarith
  have "sqrt 3 < 149 / 100 * sqrt 2" using sqrt2_bounds(1) sqrt3_bounds(2) by linarith
  then have "sqrt 3 / sqrt 2 < 149 / 100" using p2 by (simp only: pos_divide_less_eq)
  then have hi: "sqrt 3 / sqrt 2 < 5 / 4 * float_1_2" using band_limits_5_4(4) by linarith
  from lo hi show ?thesis
    by (simp only: in_band_def d_ratio_011_111 band_limits_5_4(1,2) np_less.simps)
qed

lemma qualifies_001_011: "qualifies exact_ops 66 (CrystalPlane 0 0 1) (CrystalPlane 0 1 1)"
proof (rule qualifies_exact_of_dot)
  show "sqrt (real_of_int (0 * 0 + 0 * 0 + 1 * 1)) \<noteq> 0" by simp
  show "sqrt (real_of_int (0 * 0 + 1 * 1 + 1 * 1)) \<noteq> 0" by simp
  have "1 / 2 < 1 / sqrt 2" using sqrt2_bounds(2) by (simp add: field_simps)
  then show "1 / 2 <
      real_of_int 0 / sqrt (real_of_int (0 * 0 + 0 * 0 + 1 * 1)) *
         (real_of_int 0 / sqrt (real_of_int (0 * 0 + 1 * 1 + 1 * 1))) +
       real_of_int 0 / sqrt (real_of_int (0 * 0 + 0 * 0 + 1 * 1)) *
         (real_of_int 1 / sqrt (real_of_int (0 * 0 + 1 * 1 + 1 * 1))) +
       real_of_int 1 / sqrt (real_of_int (0 * 0 + 0 * 0 + 1 * 1)) *
         (real_of_int 1 / sqrt (real_of_int (0 * 0 + 1 * 1 + 1 * 1)))"
    by simp
  show "(60::real) \<le> 66" by simp
qed

lemma two_over_product:
  fixes u v :: real
  shows "2 / (u * v) = 1 / u * (1 / v) + 1 / u * (1 / v)"
  by simp

lemma qualifies_011_111: "qualifies exact_ops 66 (CrystalPlane 0 1 1) (CrystalPlane 1 1 1)"
proof (rule qualifies_exact_of_dot)
  show "sqrt (real_of_int (0 * 0 + 1 * 1 + 1 * 1)) \<noteq> 0" by simp
  show "sqrt (real_of_int (1 * 1 + 1 * 1 + 1 * 1)) \<noteq> 0" by simp
  have "sqrt 2 * sqrt 3 \<le> 142 / 100 * (174 / 100)"
    using sqrt2_bounds(2) sqrt3_bounds(2) by (intro mult_mono) simp_all
  then have "sqrt 2 * sqrt 3 < 4" by simp
  moreover have "0 < sqrt 2 * sqrt 3" by simp
  ultimately have "1 / 2 < 2 / (sqrt 2 * sqrt 3)"
    by (simp only: pos_less_divide_eq)
  moreover have "2 / (sqrt 2 * sqrt 3) = 1 / sqrt 2 * (1 / sqrt 3) + 1 / sqrt 2 * (1 / sqrt 3)"
    by (rule two_over_product)
  ultimately have "1 / 2 < 1 / sqrt 2 * (1 / sqrt 3) + 1 / sqrt 2 * (1 / sqrt 3)"
    by (simp only:)
  then show "1 / 2 <
      real_of_int 0 / sqrt (real_of_int (0 * 0 + 1 * 1 + 1 * 1)) *
         (real_of_int 1 / sqrt (real_of_int (1 * 1 + 1 * 1 + 1 * 1))) +
       real_of_int 1 / sqrt (real_of_int (0 * 0 + 1 * 1 + 1 * 1)) *
         (real_of_int 1 / sqrt (real_of_int (1 * 1 + 1 * 1 + 1 * 1))) +
       real_of_int 1 / sqrt (real_of_int (0 * 0 + 1 * 1 + 1 * 1)) *
         (real_of_int 1 / sqrt (real_of_int (1 * 1 + 1 * 1 + 1 * 1)))"
    by simp
  show "(60::real) \<le> 66" by simp
qed

lemma find_001_011:
  "find (qualifies exact_ops 66 (CrystalPlane 0 0 1)) (get_equivalent_planes (CrystalPlane 0 1 1))
     = Some (CrystalPlane 0 1 1)"
proof -
  obtain rest where "get_equivalent_planes (CrystalPlane 0 1 1) = CrystalPlane 0 1 1 # rest"
    by (simp add: get_equivalent_planes_explicit)
  then show ?thesis using qualifies_001_011 by simp
qed

lemma find_011_111:
  "find (qualifies exact_ops 66 (CrystalPlane 0 1 1)) (get_equivalent_planes (CrystalPlane 1 1 1))
     = Some (CrystalPlane 1 1 1)"
proof -
  obtain rest where "get_equivalent_planes (CrystalPlane 1 1 1) = CrystalPlane 1 1 1 # rest"
    by (simp add: get_equivalent_planes_explicit)
  then show ?thesis using qualifies_011_111 by simp
qed

lemma zone_axes_small:
  "get_zone_axis (CrystalPlane 0 0 1) (CrystalPlane 0 1 1) = (- 1, 0, 0)"
  "get_zone_axis (CrystalPlane 0 1 1) (CrystalPlane 1 1 1) = (0, 1, - 1)"
  "get_zone_axis (CrystalPlane 0 0 1) (CrystalPlane 0 0 1) = (0, 0, 0)"
  by (simp_all add: get_zone_axis_def int64_range_def wrap64_def)

lemma match_of_SC_3:
  "match_of exact_ops (5 / 4) 66 (CrystalPlane 0 0 1, CrystalPlane 0 1 1) =
     Some \<lparr>vector_1 = CrystalPlane 0 0 1, vector_2 = CrystalPlane 0 1 1, zone_axis = (- 1, 0, 0)\<rparr>"
  "match_of exact_ops (5 / 4) 66 (CrystalPlane 0 0 1, CrystalPlane 1 1 1) = None"
  "match_of exact_ops (5 / 4) 66 (CrystalPlane 0 1 1, CrystalPlane 1 1 1) =
     Some \<lparr>vector_1 = CrystalPlane 0 1 1, vector_2 = CrystalPlane 1 1 1, zone_axis = (0, 1, - 1)\<rparr>"
  using in_band_001_011 not_in_band_001_111 in_band_011_111
  by (simp_all add: match_of_def find_001_011 find_011_111 zone_axes_small)

theorem find_pairs_ordered_nonempty_witness:
  "find_pairs exact_ops
     \<lparr>crystal_system = SC, order = 3,
        planes = Some [CrystalPlane 0 0 1, CrystalPlane 0 1 1, CrystalPlane 1 1 1]\<rparr> (5 / 4) 66
   = Inr [\<lparr>vector_1 = CrystalPlane 0 0 1, vector_2 = CrystalPlane 0 1 1, zone_axis = (- 1, 0, 0)\<rparr>,
          \<lparr>vector_1 = CrystalPlane 0 1 1, vector_2 = CrystalPlane 1 1 1, zone_axis = (0, 1, - 1)\<rparr>] \<and>
   (\<exists>c ms. Crystal_init (Literal ''FCC'') 8 = Inr c \<and>
      find_pairs exact_ops c (28.93 / 11.11) 66 = Inr ms \<and> ms \<noteq> [])"
proof
  let ?ps = "[CrystalPlane 0 0 1, CrystalPlane 0 1 1, CrystalPlane 1 1 1]"
  let ?c = "\<lparr>crystal_system = SC, order = 3, planes = Some ?ps\<rparr>"
  have "Crystal_init (Literal ''SC'') 3 = Inr ?c \<and> planes ?c = Some ?ps"
    using Crystal_SC_3 by simp
  then have "find_pairs exact_ops ?c (5 / 4) 66 =
      Inr (List.map_filter (match_of exact_ops (5 / 4) 66) (combinations2 ?ps))"
    by (rule find_pairs_ordered_nonempty [THEN conjunct1, THEN mp])
  also have "List.map_filter (match_of exact_ops (5 / 4) 66) (combinations2 ?ps) =
      [\<lparr>vector_1 = CrystalPlane 0 0 1, vector_2 = CrystalPlane 0 1 1, zone_axis = (- 1, 0, 0)\<rparr>,
       \<lparr>vector_1 = CrystalPlane 0 1 1, vector_2 = CrystalPlane 1 1 1, zone_axis = (0, 1, - 1)\<rparr>]"
    by (simp add: List.map_filter_simps match_of_SC_3)
  finally show "find_pairs exact_ops ?c (5 / 4) 66 =
      Inr [\<lparr>vector_1 = CrystalPlane 0 0 1, vector_2 = CrystalPlane 0 1 1, zone_axis = (- 1, 0, 0)\<rparr>,
           \<lparr>vector_1 = CrystalPlane 0 1 1, vector_2 = CrystalPlane 1 1 1, zone_axis = (0, 1, - 1)\<rparr>]" .
next
  have "accurate exact_ops \<and> \<bar>28.93 / 11.11 - 28.93 / 11.11\<bar> \<le> (1 / 1000 :: real)"
    using accurate_exact_ops by simp
  then show "\<exists>c ms. Crystal_init (Literal ''FCC'') 8 = Inr c \<and>
      find_pairs exact_ops c (28.93 / 11.11) 66 = Inr ms \<and> ms \<noteq> []"
    by (rule find_pairs_ordered_nonempty [THEN conjunct2, THEN mp])
qed

lemma not_qualifies_right_angle:
  "\<not> qualifies exact_ops 90 (CrystalPlane 1 0 0) (CrystalPlane 0 1 0)"
  using angle_between_exact [of 1 0 0 0 1 0] by (simp add: qualifies_def)

text \<open>
  C4. The scan of the equivalent planes of the second plane of a retained pair reports the
  first one, in the order of enumeration, whose angle to the first plane is strictly below
  the threshold, with the zone axis of the two, and stops; it reports nothing when no
  equivalent plane qualifies; so each retained pair yields at most one match, and the report
  of \<open>find_pairs\<close> is the concatenation of these over the retained pairs. An angle equal to
  the threshold does not qualify: so for the planes (1, 0, 0) and (0, 1, 0) at 90 degrees
  under the exact operations, and for any computed angle that equals the threshold.
\<close>

theorem first_qualifying_equivalent:
  "(\<forall>i < length es. qualifies F a p (es ! i) \<and> (\<forall>j < i. \<not> qualifies F a p (es ! j)) \<longrightarrow>
      equivalents_loop F p es a =
        [\<lparr>vector_1 = p, vector_2 = es ! i, zone_axis = get_zone_axis p (es ! i)\<rparr>]) \<and>
   ((\<forall>e \<in> set es. \<not> qualifies F a p e) \<longrightarrow> equivalents_loop F p es a = []) \<and>
   length (equivalents_loop F p es a) \<le> 1 \<and>
   (possible_pairs F c r = Inr pairs \<longrightarrow>
      find_pairs F c r a =
        Inr (concat (map (\<lambda>pair. equivalents_loop F (fst pair) (get_equivalent_planes (snd pair)) a)
          pairs))) \<and>
   \<not> qualifies exact_ops 90 (CrystalPlane 1 0 0) (CrystalPlane 0 1 0) \<and>
   (angle_between F p e = Fin a \<longrightarrow> \<not> qualifies F a p e)"
proof (intro conjI)
  show "\<forall>i < length es. qualifies F a p (es ! i) \<and> (\<forall>j < i. \<not> qualifies F a p (es ! j)) \<longrightarrow>
      equivalents_loop F p es a =
        [\<lparr>vector_1 = p, vector_2 = es ! i, zone_axis = get_zone_axis p (es ! i)\<rparr>]"
    using equivalents_loop_first by blast
  show "(\<forall>e \<in> set es. \<not> qualifies F a p e) \<longrightarrow> equivalents_loop F p es a = []"
  proof
    assume "\<forall>e \<in> set es. \<not> qualifies F a p e"
    then have "find (qualifies F a p) es = None" by (simp add: find_None_iff)
    then show "equivalents_loop F p es a = []" by (simp add: equivalents_loop_find)
  qed
  show "length (equivalents_loop F p es a) \<le> 1"
    by (simp add: equivalents_loop_find split: option.split)
  show "possible_pairs F c r = Inr pairs \<longrightarrow>
      find_pairs F c r a =
        Inr (concat (map (\<lambda>pair. equivalents_loop F (fst pair) (get_equivalent_planes (snd pair)) a)
          pairs))"
    by (simp add: find_pairs_def pairs_loop_concat)
  show "\<not> qualifies exact_ops 90 (CrystalPlane 1 0 0) (CrystalPlane 0 1 0)"
    by (rule not_qualifies_right_angle)
  show "angle_between F p e = Fin a \<longrightarrow> \<not> qualifies F a p e"
    by (simp add: qualifies_def)
qed

lemma qualifies_001_001: "qualifies exact_ops 66 (CrystalPlane 0 0 1) (CrystalPlane 0 0 1)"
  by (rule qualifies_exact_of_dot) simp_all

lemma angle_001_010: "angle_between exact_ops (CrystalPlane 0 0 1) (CrystalPlane 0 1 0) = Fin 90"
  using angle_between_exact [of 0 0 1 0 1 0] by simp

lemma not_qualifies_001_010: "\<not> qualifies exact_ops 66 (CrystalPlane 0 0 1) (CrystalPlane 0 1 0)"
  by (simp add: qualifies_def angle_001_010)

lemma possible_pairs_SC_3:
  "possible_pairs exact_ops
     \<lparr>crystal_system = SC, order = 3,
        planes = Some [CrystalPlane 0 0 1, CrystalPlane 0 1 1, CrystalPlane 1 1 1]\<rparr> (5 / 4)
   = Inr [(CrystalPlane 0 0 1, CrystalPlane 0 1 1), (CrystalPlane 0 1 1, CrystalPlane 1 1 1)]"
proof -
  let ?ps = "[CrystalPlane 0 0 1, CrystalPlane 0 1 1, CrystalPlane 1 1 1]"
  let ?c = "\<lparr>crystal_system = SC, order = 3, planes = Some ?ps\<rparr>"
  have "planes ?c = Some ?ps" by simp
  then have "possible_pairs exact_ops ?c (5 / 4) =
      Inr (filter (in_band exact_ops (5 / 4)) (combinations2 ?ps))"
    by (rule possible_pairs_filter)
  then show ?thesis
    using in_band_001_011 not_in_band_001_111 in_band_011_111 by simp
qed

theorem first_qualifying_equivalent_witness:
  "equivalents_loop exact_ops (CrystalPlane 0 0 1)
     [CrystalPlane 0 1 0, CrystalPlane 0 0 1, CrystalPlane 0 1 1] 66
     = [\<lparr>vector_1 = CrystalPlane 0 0 1, vector_2 = CrystalPlane 0 0 1, zone_axis = (0, 0, 0)\<rparr>] \<and>
   equivalents_loop exact_ops (CrystalPlane 0 0 1) [CrystalPlane 0 1 0] 66 = [] \<and>
   find_pairs exact_ops
     \<lparr>crystal_system = SC, order = 3,
        planes = Some [CrystalPlane 0 0 1, CrystalPlane 0 1 1, CrystalPlane 1 1 1]\<rparr> (5 / 4) 66
   = Inr (equivalents_loop exact_ops (CrystalPlane 0 0 1) (get_equivalent_planes (CrystalPlane 0 1 1)) 66 @
          equivalents_loop exact_ops (CrystalPlane 0 1 1) (get_equivalent_planes (CrystalPlane 1 1 1)) 66) \<and>
   \<not> qualifies exact_ops 90 (CrystalPlane 0 0 1) (CrystalPlane 0 1 0)"
proof (intro conjI)
  let ?es = "[CrystalPlane 0 1 0, CrystalPlane 0 0 1, CrystalPlane 0 1 1]"
  have "1 < length ?es" by simp
  moreover have "qualifies exact_ops 66 (CrystalPlane 0 0 1) (?es ! 1) \<and>
      (\<forall>j < 1. \<not> qualifies exact_ops 66 (CrystalPlane 0 0 1) (?es ! j))"
    using qualifies_001_001 not_qualifies_001_010 by simp
  ultimately have "equivalents_loop exact_ops (CrystalPlane 0 0 1) ?es 66 =
      [\<lparr>vector_1 = CrystalPlane 0 0 1, vector_2 = ?es ! 1,
        zone_axis = get_zone_axis (CrystalPlane 0 0 1) (?es ! 1)\<rparr>]"
    using first_qualifying_equivalent [where es = ?es and a = 66 and p = "CrystalPlane 0 0 1"
        and F = exact_ops, THEN conjunct1] by blast
  then show "equivalents_loop exact_ops (CrystalPlane 0 0 1) ?es 66
     = [\<lparr>vector_1 = CrystalPlane 0 0 1, vector_2 = CrystalPlane 0 0 1, zone_axis = (0, 0, 0)\<rparr>]"
    by (simp add: zone_axes_small)
next
  have "\<forall>e \<in> set [CrystalPlane 0 1 0]. \<not> qualifies exact_ops 66 (CrystalPlane 0 0 1) e"
    using not_qualifies_001_010 by simp
  then show "equivalents_loop exact_ops (CrystalPlane 0 0 1) [CrystalPlane 0 1 0] 66 = []"
    using first_qualifying_equivalent [where es = "[CrystalPlane 0 1 0]" and a = 66
        and p = "CrystalPlane 0 0 1" and F = exact_ops, THEN conjunct2, THEN conjunct1] by blast
next
  let ?c = "\<lparr>crystal_system = SC, order = 3,
      planes = Some [CrystalPlane 0 0 1, CrystalPlane 0 1 1, CrystalPlane 1 1 1]\<rparr>"
  let ?pairs = "[(CrystalPlane 0 0 1, CrystalPlane 0 1 1), (CrystalPlane 0 1 1, CrystalPlane 1 1 1)]"
  have "find_pairs exact_ops ?c (5 / 4) 66 =
      Inr (concat (map (\<lambda>pair. equivalents_loop exact_ops (fst pair)
        (get_equivalent_planes (snd pair)) 66) ?pairs))"
    by (rule first_qualifying_equivalent [where c = ?c and r = "5 / 4" and pairs = ?pairs
            and a = 66 and F = exact_ops,
          THEN conjunct2, THEN conjunct2, THEN conjunct2, THEN conjunct1, THEN mp])
      (rule possible_pairs_SC_3)
  then show "find_pairs exact_ops ?c (5 / 4) 66
     = Inr (equivalents_loop exact_ops (CrystalPlane 0 0 1) (get_equivalent_planes (CrystalPlane 0 1 1)) 66 @
          equivalents_loop exact_ops (CrystalPlane 0 1 1) (get_equivalent_planes (CrystalPlane 1 1 1)) 66)"
    by simp
next
  have "angle_between exact_ops (CrystalPlane 0 0 1) (CrystalPlane 0 1 0) = Fin 90"
    by (rule angle_001_010)
  then show "\<not> qualifies exact_ops 90 (CrystalPlane 0 0 1) (CrystalPlane 0 1 0)"
    by (rule first_qualifying_equivalent [where F = exact_ops and p = "CrystalPlane 0 0 1"
          and e = "CrystalPlane 0 1 0" and a = 90,
          THEN conjunct2, THEN conjunct2, THEN conjunct2, THEN conjunct2, THEN conjunct2, THEN mp])
qed

lemma d_spacing_interval:
  assumes "accurate F" and "1 \<le> s" and "s \<le> 2 ^ 128"
  obtains d where "np_div F (Fin 1) (Fin (fl_norm F s)) = Fin d"
    and "(1 - 1 / 10 ^ 8) / sqrt (real_of_int s) \<le> d"
    and "d \<le> (1 + 1 / 10 ^ 8) / sqrt (real_of_int s)"
proof -
  obtain d where d: "np_div F (Fin 1) (Fin (fl_norm F s)) = Fin d"
    "\<bar>d - 1 / sqrt (real_of_int s)\<bar> \<le> (1 / 10 ^ 8) / sqrt (real_of_int s)"
    using d_spacing_of_norm [OF assms] by blast
  from d(2) have "d - 1 / sqrt (real_of_int s) \<le> (1 / 10 ^ 8) / sqrt (real_of_int s)"
    "- (d - 1 / sqrt (real_of_int s)) \<le> (1 / 10 ^ 8) / sqrt (real_of_int s)"
    by (simp_all only: abs_le_iff)
  then have "(1 - 1 / 10 ^ 8) / sqrt (real_of_int s) \<le> d"
    "d \<le> (1 + 1 / 10 ^ 8) / sqrt (real_of_int s)"
    by (simp_all only: diff_divide_distrib add_divide_distrib)
  with d(1) show ?thesis by (rule that)
qed

lemma sqrt_square_sum_bounds:
  assumes "1 \<le> s" and "s \<le> 2 ^ 128"
  shows "1 \<le> sqrt (real_of_int s)" and "sqrt (real_of_int s) \<le> 2 ^ 64"
proof -
  show "1 \<le> sqrt (real_of_int s)" using assms(1) by simp
  have "real_of_int s \<le> real_of_int (2 ^ 128)" using assms(2) by (simp only: of_int_le_iff)
  also have "real_of_int (2 ^ 128) = (2 ^ 64)\<^sup>2" by simp
  finally have "real_of_int s \<le> (2 ^ 64)\<^sup>2" .
  then show "sqrt (real_of_int s) \<le> 2 ^ 64" by (intro real_le_lsqrt) simp_all
qed

lemma d_ratio_accurate:
  assumes "accurate F"
    and "1 \<le> sort_by_square_sum (planenormal p)" and "sort_by_square_sum (planenormal p) \<le> 2 ^ 128"
    and "1 \<le> sort_by_square_sum (planenormal q)" and "sort_by_square_sum (planenormal q) \<le> 2 ^ 128"
  obtains x where "d_ratio F (p, q) = Fin x"
    and "(1 - 1 / 10 ^ 7) * (sqrt (real_of_int (sort_by_square_sum (planenormal q))) /
            sqrt (real_of_int (sort_by_square_sum (planenormal p)))) \<le> x"
    and "x \<le> (1 + 1 / 10 ^ 7) * (sqrt (real_of_int (sort_by_square_sum (planenormal q))) /
            sqrt (real_of_int (sort_by_square_sum (planenormal p))))"
proof -
  define u where "u = sqrt (real_of_int (sort_by_square_sum (planenormal p)))"
  define v where "v = sqrt (real_of_int (sort_by_square_sum (planenormal q)))"
  have u: "1 \<le> u" "u \<le> 2 ^ 64"
    unfolding u_def using assms(2,3) by (rule sqrt_square_sum_bounds)+
  have v: "1 \<le> v" "v \<le> 2 ^ 64"
    unfolding v_def using assms(4,5) by (rule sqrt_square_sum_bounds)+
  obtain dp where dp: "np_div F (Fin 1) (Fin (fl_norm F (sort_by_square_sum (planenormal p)))) = Fin dp"
    "(1 - 1 / 10 ^ 8) / u \<le> dp" "dp \<le> (1 + 1 / 10 ^ 8) / u"
    unfolding u_def using assms(1,2,3) by (rule d_spacing_interval)
  obtain dq where dq: "np_div F (Fin 1) (Fin (fl_norm F (sort_by_square_sum (planenormal q)))) = Fin dq"
    "(1 - 1 / 10 ^ 8) / v \<le> dq" "dq \<le> (1 + 1 / 10 ^ 8) / v"
    unfolding v_def using assms(1,4,5) by (rule d_spacing_interval)
  have upos: "0 < u" and vpos: "0 < v" using u(1) v(1) by linarith+
  have la: "0 < (1 - 1 / 10 ^ 8) / u" using upos by simp
  have lb: "0 < (1 - 1 / 10 ^ 8) / v" using vpos by simp
  have q1: "(1 - 1 / 10 ^ 8) / u / ((1 + 1 / 10 ^ 8) / v) = (1 - 1 / 10 ^ 8) / (1 + 1 / 10 ^ 8) * (v / u)"
    by simp
  have q2: "(1 + 1 / 10 ^ 8) / u / ((1 - 1 / 10 ^ 8) / v) = (1 + 1 / 10 ^ 8) / (1 - 1 / 10 ^ 8) * (v / u)"
    by simp
  have vu: "1 / 2 ^ 64 \<le> v / u" "v / u \<le> 2 ^ 64"
  proof -
    have "1 / 2 ^ 64 \<le> 1 / u" using u upos by (intro divide_left_mono) simp_all
    also have "1 / u \<le> v / u" using v(1) upos by (intro divide_right_mono) simp_all
    finally show "1 / 2 ^ 64 \<le> v / u" .
    have "v / u \<le> v / 1" using u(1) vpos by (intro divide_left_mono) simp_all
    then show "v / u \<le> 2 ^ 64" using v(2) by simp
  qed
  have vupos: "0 < v / u" using upos vpos by simp
  have c1: "1 / 10 ^ 100 \<le> (1 - 1 / 10 ^ 8) / u / ((1 + 1 / 10 ^ 8) / v)"
  proof -
    have "(1 / 2 :: real) \<le> (1 - 1 / 10 ^ 8) / (1 + 1 / 10 ^ 8)" by simp
    then have "1 / 2 * (1 / 2 ^ 64) \<le> (1 - 1 / 10 ^ 8) / (1 + 1 / 10 ^ 8) * (v / u)"
      using vu(1) by (intro mult_mono) simp_all
    moreover have "(1 / 10 ^ 100 :: real) \<le> 1 / 2 * (1 / 2 ^ 64)" by simp
    ultimately show ?thesis unfolding q1 by linarith
  qed
  have c2: "(1 + 1 / 10 ^ 8) / u / ((1 - 1 / 10 ^ 8) / v) \<le> 10 ^ 100"
  proof -
    have "(1 + 1 / 10 ^ 8) / (1 - 1 / 10 ^ 8) \<le> (2 :: real)" by simp
    then have "(1 + 1 / 10 ^ 8) / (1 - 1 / 10 ^ 8) * (v / u) \<le> 2 * 2 ^ 64"
      using vu(2) vupos by (intro mult_mono) simp_all
    moreover have "2 * 2 ^ 64 \<le> (10 ^ 100 :: real)" by simp
    ultimately show ?thesis unfolding q2 by linarith
  qed
  obtain x where x: "fl_div F dp dq = Fin x"
    "(1 - 1 / 10 ^ 8) / u / ((1 + 1 / 10 ^ 8) / v) * (1 - tolerance) \<le> x"
    "x \<le> (1 + 1 / 10 ^ 8) / u / ((1 - 1 / 10 ^ 8) / v) * (1 + tolerance)"
    using accurate_div [OF assms(1) la dp(2,3) lb dq(2,3) c1 c2] by blast
  have k1: "(1 - 1 / 10 ^ 7 :: real) \<le> (1 - 1 / 10 ^ 8) / (1 + 1 / 10 ^ 8) * (1 - tolerance)"
    by (simp add: tolerance_def)
  have k2: "(1 + 1 / 10 ^ 8) / (1 - 1 / 10 ^ 8) * (1 + tolerance) \<le> (1 + 1 / 10 ^ 7 :: real)"
    by (simp add: tolerance_def)
  have "(1 - 1 / 10 ^ 7) * (v / u) \<le> (1 - 1 / 10 ^ 8) / (1 + 1 / 10 ^ 8) * (1 - tolerance) * (v / u)"
    using k1 vupos by (intro mult_right_mono) simp_all
  also have "\<dots> = (1 - 1 / 10 ^ 8) / u / ((1 + 1 / 10 ^ 8) / v) * (1 - tolerance)"
    unfolding q1 by (simp only: mult_ac)
  finally have lo: "(1 - 1 / 10 ^ 7) * (v / u) \<le> x" using x(2) by linarith
  have "(1 + 1 / 10 ^ 8) / u / ((1 - 1 / 10 ^ 8) / v) * (1 + tolerance)
      = (1 + 1 / 10 ^ 8) / (1 - 1 / 10 ^ 8) * (1 + tolerance) * (v / u)"
    unfolding q2 by (simp only: mult_ac)
  also have "\<dots> \<le> (1 + 1 / 10 ^ 7) * (v / u)"
    using k2 vupos by (intro mult_right_mono) simp_all
  finally have hi: "x \<le> (1 + 1 / 10 ^ 7) * (v / u)" using x(3) by linarith
  have dqn: "dq \<noteq> 0" using dq(2) lb by linarith
  have "d_ratio F (p, q) = Fin x"
    using dp(1) dq(1) dqn x(1) by (simp add: d_ratio_def get_d_spacing_def linalg_norm_def)
  then show ?thesis using lo hi unfolding u_def v_def by (rule that)
qed

lemma in_band_accurate:
  assumes "accurate F"
    and "1 \<le> sort_by_square_sum (planenormal p)" and "sort_by_square_sum (planenormal p) \<le> 2 ^ 128"
    and "1 \<le> sort_by_square_sum (planenormal q)" and "sort_by_square_sum (planenormal q) \<le> 2 ^ 128"
    and "1 / 1000 \<le> r" and "r \<le> 1000"
  shows "r * (801 / 1000) \<le> sqrt (real_of_int (sort_by_square_sum (planenormal q))) /
            sqrt (real_of_int (sort_by_square_sum (planenormal p))) \<and>
         sqrt (real_of_int (sort_by_square_sum (planenormal q))) /
            sqrt (real_of_int (sort_by_square_sum (planenormal p))) \<le> r * (1199 / 1000)
         \<Longrightarrow> in_band F r (p, q)"
    and "in_band F r (p, q) \<Longrightarrow>
         r * (799 / 1000) \<le> sqrt (real_of_int (sort_by_square_sum (planenormal q))) /
            sqrt (real_of_int (sort_by_square_sum (planenormal p))) \<and>
         sqrt (real_of_int (sort_by_square_sum (planenormal q))) /
            sqrt (real_of_int (sort_by_square_sum (planenormal p))) \<le> r * (1201 / 1000)"
proof -
  define e where "e = sqrt (real_of_int (sort_by_square_sum (planenormal q))) /
      sqrt (real_of_int (sort_by_square_sum (planenormal p)))"
  obtain x where x: "d_ratio F (p, q) = Fin x"
    "(1 - 1 / 10 ^ 7) * e \<le> x" "x \<le> (1 + 1 / 10 ^ 7) * e"
    unfolding e_def using assms(1-5) by (rule d_ratio_accurate)
  have rpos: "0 < r" using assms(6) by linarith
  obtain lo where lo: "fl_mul F r float_0_8 = Fin lo"
    "r * (8 / 10) * (1 - tolerance) \<le> lo" "lo \<le> r * (8001 / 10000) * (1 + tolerance)"
    using accurate_mul [OF assms(1), of r r r "8 / 10" float_0_8 "8001 / 10000"]
      rpos assms(6,7) float_literal_bounds by auto
  obtain hi where hi: "fl_mul F r float_1_2 = Fin hi"
    "r * (11999 / 10000) * (1 - tolerance) \<le> hi" "hi \<le> r * (12 / 10) * (1 + tolerance)"
    using accurate_mul [OF assms(1), of r r r "11999 / 10000" float_1_2 "12 / 10"]
      rpos assms(6,7) float_literal_bounds by auto
  have band: "in_band F r (p, q) \<longleftrightarrow> lo < x \<and> x < hi"
    by (simp add: in_band_def x(1) lo(1) hi(1))
  have L: "r * (79999 / 100000) \<le> lo" "lo \<le> r * (80011 / 100000)"
    using lo(2,3) rpos by (simp_all add: tolerance_def)
  have H: "r * (119989 / 100000) \<le> hi" "hi \<le> r * (120001 / 100000)"
    using hi(2,3) rpos by (simp_all add: tolerance_def)
  have X: "e * (9999999 / 10000000) \<le> x" "x \<le> e * (10000001 / 10000000)"
    using x(2,3) by simp_all
  show "in_band F r (p, q)" if "r * (801 / 1000) \<le> e \<and> e \<le> r * (1199 / 1000)"
    unfolding band using that L H X rpos by (simp add: algebra_simps)
  show "r * (799 / 1000) \<le> e \<and> e \<le> r * (1201 / 1000)" if "in_band F r (p, q)"
    using that L H X rpos unfolding band by (simp add: algebra_simps)
qed

lemma int64_plane_square_sum:
  assumes "int64_range a" and "int64_range b" and "int64_range c"
    and "\<not> (a = 0 \<and> b = 0 \<and> c = 0)"
  shows "1 \<le> sort_by_square_sum (planenormal (CrystalPlane a b c))"
    and "sort_by_square_sum (planenormal (CrystalPlane a b c)) \<le> 2 ^ 128"
proof -
  define s where "s = a * a + b * b + c * c"
  have "s \<noteq> 0" using assms(4) sum3_squares_eq_zero_iff [of a b c] unfolding s_def by blast
  moreover have "0 \<le> s" unfolding s_def by simp
  ultimately have s1: "1 \<le> s" by linarith
  have "s \<le> 2 ^ 126 + 2 ^ 126 + 2 ^ 126"
    unfolding s_def using assms(1-3) by (intro add_mono int64_square_bound)
  then have s2: "s \<le> 2 ^ 128" by simp
  have "sort_by_square_sum (planenormal (CrystalPlane a b c)) = s" by (simp add: s_def)
  with s1 s2 show "1 \<le> sort_by_square_sum (planenormal (CrystalPlane a b c))"
    and "sort_by_square_sum (planenormal (CrystalPlane a b c)) \<le> 2 ^ 128" by simp_all
qed

lemma exact_d_ratio:
  "(1 / sqrt (real_of_int (a\<^sup>2 + b\<^sup>2 + c\<^sup>2))) / (1 / sqrt (real_of_int (d\<^sup>2 + e\<^sup>2 + f\<^sup>2))) =
   sqrt (real_of_int (sort_by_square_sum (planenormal (CrystalPlane d e f)))) /
   sqrt (real_of_int (sort_by_square_sum (planenormal (CrystalPlane a b c))))"
  by (simp add: power2_eq_square)

lemma float_0_8_nonzero: "float_0_8 \<noteq> 0"
  by (simp add: float_0_8_def)

lemma d_ratio_001_002:
  "d_ratio exact_ops (CrystalPlane 0 0 1, CrystalPlane 0 0 2) = Fin 2"
  using d_ratio_exact [of 0 0 1 0 0 2] by simp


text \<open>
  C5. For a constructed crystal with a plane sequence, \<open>find_pairs\<close> retains exactly the pairs
  of \<open>combinations\<close> over that sequence whose computed ratio of d-spacings lies strictly
  between the computed products of the target ratio with 0.8 and with 1.2, whatever the
  rounding of the floating-point operations; a pair whose computed ratio equals one of the two
  limits is rejected. With accurate floating-point operations, planes other than the zero plane
  with indices in the signed 64-bit range and a target ratio between 1/1000 and 1000, the
  computed test agrees with the exact one away from the edges: a pair whose exact ratio
  \<open>(1 / sqrt (h\<^sub>1\<^sup>2 + k\<^sub>1\<^sup>2 + l\<^sub>1\<^sup>2)) / (1 / sqrt (h\<^sub>2\<^sup>2 + k\<^sub>2\<^sup>2 + l\<^sub>2\<^sup>2))\<close> lies between 0.801 and 1.199 times
  the target ratio is retained, and every retained pair has its exact ratio between 0.799 and
  1.201 times the target ratio.
\<close>

theorem retained_pairs_in_band:
  "(Crystal_init sel n = Inr c \<and> planes c = Some ps \<longrightarrow>
      possible_pairs F c r = Inr (filter (in_band F r) (combinations2 ps))) \<and>
   (d_ratio F pair = fl_mul F r' float_0_8 \<or> d_ratio F pair = fl_mul F r' float_1_2 \<longrightarrow>
      \<not> in_band F r' pair) \<and>
   (accurate F \<and> int64_range h1 \<and> int64_range k1 \<and> int64_range l1 \<and> \<not> (h1 = 0 \<and> k1 = 0 \<and> l1 = 0) \<and>
    int64_range h2 \<and> int64_range k2 \<and> int64_range l2 \<and> \<not> (h2 = 0 \<and> k2 = 0 \<and> l2 = 0) \<and>
    1 / 1000 \<le> t \<and> t \<le> 1000 \<longrightarrow>
      (t * (801 / 1000) \<le> (1 / sqrt (real_of_int (h1\<^sup>2 + k1\<^sup>2 + l1\<^sup>2))) / (1 / sqrt (real_of_int (h2\<^sup>2 + k2\<^sup>2 + l2\<^sup>2))) \<and>
       (1 / sqrt (real_of_int (h1\<^sup>2 + k1\<^sup>2 + l1\<^sup>2))) / (1 / sqrt (real_of_int (h2\<^sup>2 + k2\<^sup>2 + l2\<^sup>2))) \<le> t * (1199 / 1000) \<longrightarrow>
         in_band F t (CrystalPlane h1 k1 l1, CrystalPlane h2 k2 l2)) \<and>
      (in_band F t (CrystalPlane h1 k1 l1, CrystalPlane h2 k2 l2) \<longrightarrow>
         t * (799 / 1000) \<le> (1 / sqrt (real_of_int (h1\<^sup>2 + k1\<^sup>2 + l1\<^sup>2))) / (1 / sqrt (real_of_int (h2\<^sup>2 + k2\<^sup>2 + l2\<^sup>2))) \<and>
         (1 / sqrt (real_of_int (h1\<^sup>2 + k1\<^sup>2 + l1\<^sup>2))) / (1 / sqrt (real_of_int (h2\<^sup>2 + k2\<^sup>2 + l2\<^sup>2))) \<le> t * (1201 / 1000)))"
proof (intro conjI impI)
  assume "Crystal_init sel n = Inr c \<and> planes c = Some ps"
  then show "possible_pairs F c r = Inr (filter (in_band F r) (combinations2 ps))"
    using possible_pairs_filter by blast
next
  assume "d_ratio F pair = fl_mul F r' float_0_8 \<or> d_ratio F pair = fl_mul F r' float_1_2"
  then show "\<not> in_band F r' pair"
    using np_less_irrefl by (auto simp: in_band_def)
next
  assume h: "accurate F \<and> int64_range h1 \<and> int64_range k1 \<and> int64_range l1 \<and> \<not> (h1 = 0 \<and> k1 = 0 \<and> l1 = 0) \<and>
    int64_range h2 \<and> int64_range k2 \<and> int64_range l2 \<and> \<not> (h2 = 0 \<and> k2 = 0 \<and> l2 = 0) \<and>
    1 / 1000 \<le> t \<and> t \<le> 1000"
  assume "t * (801 / 1000) \<le> (1 / sqrt (real_of_int (h1\<^sup>2 + k1\<^sup>2 + l1\<^sup>2))) / (1 / sqrt (real_of_int (h2\<^sup>2 + k2\<^sup>2 + l2\<^sup>2))) \<and>
       (1 / sqrt (real_of_int (h1\<^sup>2 + k1\<^sup>2 + l1\<^sup>2))) / (1 / sqrt (real_of_int (h2\<^sup>2 + k2\<^sup>2 + l2\<^sup>2))) \<le> t * (1199 / 1000)"
  then show "in_band F t (CrystalPlane h1 k1 l1, CrystalPlane h2 k2 l2)"
    unfolding exact_d_ratio
    using h by (intro in_band_accurate(1) int64_plane_square_sum) simp_all
next
  assume h: "accurate F \<and> int64_range h1 \<and> int64_range k1 \<and> int64_range l1 \<and> \<not> (h1 = 0 \<and> k1 = 0 \<and> l1 = 0) \<and>
    int64_range h2 \<and> int64_range k2 \<and> int64_range l2 \<and> \<not> (h2 = 0 \<and> k2 = 0 \<and> l2 = 0) \<and>
    1 / 1000 \<le> t \<and> t \<le> 1000"
  assume b: "in_band F t (CrystalPlane h1 k1 l1, CrystalPlane h2 k2 l2)"
  have "t * (799 / 1000) \<le> sqrt (real_of_int (sort_by_square_sum (planenormal (CrystalPlane h2 k2 l2)))) /
            sqrt (real_of_int (sort_by_square_sum (planenormal (CrystalPlane h1 k1 l1)))) \<and>
         sqrt (real_of_int (sort_by_square_sum (planenormal (CrystalPlane h2 k2 l2)))) /
            sqrt (real_of_int (sort_by_square_sum (planenormal (CrystalPlane h1 k1 l1)))) \<le> t * (1201 / 1000)"
    using h b by (intro in_band_accurate(2) [where F = F] int64_plane_square_sum) simp_all
  then show "t * (799 / 1000) \<le> (1 / sqrt (real_of_int (h1\<^sup>2 + k1\<^sup>2 + l1\<^sup>2))) / (1 / sqrt (real_of_int (h2\<^sup>2 + k2\<^sup>2 + l2\<^sup>2)))"
    and "(1 / sqrt (real_of_int (h1\<^sup>2 + k1\<^sup>2 + l1\<^sup>2))) / (1 / sqrt (real_of_int (h2\<^sup>2 + k2\<^sup>2 + l2\<^sup>2))) \<le> t * (1201 / 1000)"
    unfolding exact_d_ratio by simp_all
qed

theorem retained_pairs_in_band_witness:
  "possible_pairs exact_ops
     \<lparr>crystal_system = SC, order = 3,
        planes = Some [CrystalPlane 0 0 1, CrystalPlane 0 1 1, CrystalPlane 1 1 1]\<rparr> (5 / 4)
   = Inr [(CrystalPlane 0 0 1, CrystalPlane 0 1 1), (CrystalPlane 0 1 1, CrystalPlane 1 1 1)] \<and>
   \<not> in_band exact_ops (2 / float_0_8) (CrystalPlane 0 0 1, CrystalPlane 0 0 2) \<and>
   in_band exact_ops 2 (CrystalPlane 0 0 1, CrystalPlane 0 0 2) \<and>
   2 * (799 / 1000) \<le> (1 / sqrt (real_of_int (0\<^sup>2 + 0\<^sup>2 + 1\<^sup>2))) / (1 / sqrt (real_of_int (0\<^sup>2 + 0\<^sup>2 + 2\<^sup>2)))"
proof (intro conjI)
  let ?ps = "[CrystalPlane 0 0 1, CrystalPlane 0 1 1, CrystalPlane 1 1 1]"
  let ?c = "\<lparr>crystal_system = SC, order = 3, planes = Some ?ps\<rparr>"
  have "Crystal_init (Literal ''SC'') 3 = Inr ?c \<and> planes ?c = Some ?ps"
    using Crystal_SC_3 by simp
  then have "possible_pairs exact_ops ?c (5 / 4) =
      Inr (filter (in_band exact_ops (5 / 4)) (combinations2 ?ps))"
    by (rule retained_pairs_in_band [THEN conjunct1, THEN mp])
  then show "possible_pairs exact_ops ?c (5 / 4) =
      Inr [(CrystalPlane 0 0 1, CrystalPlane 0 1 1), (CrystalPlane 0 1 1, CrystalPlane 1 1 1)]"
    using in_band_001_011 not_in_band_001_111 in_band_011_111 by simp
next
  have "fl_mul exact_ops (2 / float_0_8) float_0_8 = Fin 2"
    using float_0_8_nonzero by (simp add: exact_ops_simps)
  then have "d_ratio exact_ops (CrystalPlane 0 0 1, CrystalPlane 0 0 2) =
        fl_mul exact_ops (2 / float_0_8) float_0_8 \<or>
      d_ratio exact_ops (CrystalPlane 0 0 1, CrystalPlane 0 0 2) =
        fl_mul exact_ops (2 / float_0_8) float_1_2"
    using d_ratio_001_002 by simp
  then show "\<not> in_band exact_ops (2 / float_0_8) (CrystalPlane 0 0 1, CrystalPlane 0 0 2)"
    by (rule retained_pairs_in_band [THEN conjunct2, THEN conjunct1, THEN mp])
next
  have h: "accurate exact_ops \<and> int64_range 0 \<and> int64_range 0 \<and> int64_range 1 \<and>
    \<not> ((0::int) = 0 \<and> (0::int) = 0 \<and> (1::int) = 0) \<and>
    int64_range 0 \<and> int64_range 0 \<and> int64_range 2 \<and>
    \<not> ((0::int) = 0 \<and> (0::int) = 0 \<and> (2::int) = 0) \<and>
    1 / 1000 \<le> (2::real) \<and> (2::real) \<le> 1000"
    using accurate_exact_ops by (simp add: int64_range_def)
  have e: "(1 / sqrt (real_of_int (0\<^sup>2 + 0\<^sup>2 + 1\<^sup>2))) / (1 / sqrt (real_of_int (0\<^sup>2 + 0\<^sup>2 + 2\<^sup>2))) = 2"
    by simp
  note link = retained_pairs_in_band [THEN conjunct2, THEN conjunct2, THEN mp, OF h]
  have "2 * (801 / 1000) \<le> (1 / sqrt (real_of_int (0\<^sup>2 + 0\<^sup>2 + 1\<^sup>2))) / (1 / sqrt (real_of_int (0\<^sup>2 + 0\<^sup>2 + 2\<^sup>2))) \<and>
       (1 / sqrt (real_of_int (0\<^sup>2 + 0\<^sup>2 + 1\<^sup>2))) / (1 / sqrt (real_of_int (0\<^sup>2 + 0\<^sup>2 + 2\<^sup>2))) \<le> 2 * (1199 / 1000)"
    unfolding e by simp
  then show b: "in_band exact_ops 2 (CrystalPlane 0 0 1, CrystalPlane 0 0 2)"
    by (rule link [THEN conjunct1, THEN mp])
  from b have "2 * (799 / 1000) \<le> (1 / sqrt (real_of_int (0\<^sup>2 + 0\<^sup>2 + 1\<^sup>2))) / (1 / sqrt (real_of_int (0\<^sup>2 + 0\<^sup>2 + 2\<^sup>2))) \<and>
       (1 / sqrt (real_of_int (0\<^sup>2 + 0\<^sup>2 + 1\<^sup>2))) / (1 / sqrt (real_of_int (0\<^sup>2 + 0\<^sup>2 + 2\<^sup>2))) \<le> 2 * (1201 / 1000)"
    by (rule link [THEN conjunct2, THEN mp])
  then show "2 * (799 / 1000) \<le> (1 / sqrt (real_of_int (0\<^sup>2 + 0\<^sup>2 + 1\<^sup>2))) / (1 / sqrt (real_of_int (0\<^sup>2 + 0\<^sup>2 + 2\<^sup>2)))"
    by (rule conjunct1)
qed

end
